theory Spec2Isabelle
  imports Main "HOL-Library.AList"
begin

section \<open>Python strings\<close>

text \<open>
  A Python \<open>str\<close> is a sequence of Unicode code points, and \<open>len\<close> counts code points.
  The venue's titles are Hebrew and the message template holds emoji, so a string is
  modelled as the list of its code points. An ASCII literal is written \<open>str ''...''\<close>.
\<close>

type_synonym ustr = "nat list"

definition str :: "string \<Rightarrow> ustr" where
  "str s = map of_char s"

text \<open>The code points for which \<open>str.isspace\<close> holds: what \<open>strip()\<close> and \<open>split()\<close> remove.\<close>

definition isspace :: "nat \<Rightarrow> bool" where
  "isspace c =
     ((0x09 \<le> c \<and> c \<le> 0x0D) \<or> (0x1C \<le> c \<and> c \<le> 0x20) \<or> c = 0x85 \<or> c = 0xA0 \<or>
      c = 0x1680 \<or> (0x2000 \<le> c \<and> c \<le> 0x200A) \<or> c = 0x2028 \<or> c = 0x2029 \<or>
      c = 0x202F \<or> c = 0x205F \<or> c = 0x3000)"

definition py_strip :: "ustr \<Rightarrow> ustr" where
  "py_strip s = rev (dropWhile isspace (rev (dropWhile isspace s)))"

text \<open>\<open>s.split()\<close>: the maximal runs of non-whitespace, in order.\<close>

fun split_from :: "ustr \<Rightarrow> ustr \<Rightarrow> ustr list" where
  "split_from w [] = (if w = [] then [] else [w])"
| "split_from w (c # cs) =
     (if isspace c then (if w = [] then split_from [] cs else w # split_from [] cs)
      else split_from (w @ [c]) cs)"

definition py_split :: "ustr \<Rightarrow> ustr list" where
  "py_split s = split_from [] s"

fun py_join :: "ustr \<Rightarrow> ustr list \<Rightarrow> ustr" where
  "py_join sep [] = []"
| "py_join sep [w] = w"
| "py_join sep (w # v # ws) = w @ sep @ py_join sep (v # ws)"

text \<open>
  \<open>str.lower()\<close>. Two code points above 127 lower-case to ASCII letters (U+0130 and the
  Kelvin sign U+212A); every other code point above 127 lower-cases to code points above
  127 and is kept as it is here, which changes no test for an ASCII substring.
\<close>

definition lower_cp :: "nat \<Rightarrow> ustr" where
  "lower_cp c =
     (if 0x41 \<le> c \<and> c \<le> 0x5A then [c + 0x20]
      else if c = 0x130 then [0x69, 0x307]
      else if c = 0x212A then [0x6B]
      else [c])"

definition py_lower :: "ustr \<Rightarrow> ustr" where
  "py_lower s = concat (map lower_cp s)"

text \<open>\<open>p in s\<close> on strings: \<open>p\<close> occurs in \<open>s\<close> as a contiguous substring.\<close>

fun startswith :: "'a list \<Rightarrow> 'a list \<Rightarrow> bool" where
  "startswith [] ys = True"
| "startswith (x # xs) [] = False"
| "startswith (x # xs) (y # ys) = (x = y \<and> startswith xs ys)"

fun py_in :: "'a list \<Rightarrow> 'a list \<Rightarrow> bool" where
  "py_in p [] = (p = [])"
| "py_in p (y # ys) = (startswith p (y # ys) \<or> py_in p ys)"


section \<open>The scraper: \<open>src/barby_api_scraper.py\<close>\<close>

text \<open>
  One show of the upstream JSON is a dict from field names to values. The upstream
  serialises the fields as JSON strings; a dict is modelled as a map from the (ASCII)
  key to the string value, and \<open>d.get(k, default)\<close> as \<open>dict_get\<close>.
\<close>

type_synonym pydict = "string \<rightharpoonup> ustr"

definition dict_get :: "pydict \<Rightarrow> string \<Rightarrow> ustr \<Rightarrow> ustr" where
  "dict_get d k dflt = (case d k of Some v \<Rightarrow> v | None \<Rightarrow> dflt)"

text \<open>
  The dict that \<open>parse_show\<close> returns, as a record with one field per key (\<open>unique_id\<close>
  is the key \<open>id\<close>). \<open>event_date\<close> is a \<open>datetime\<close> or \<open>None\<close>; a \<open>datetime\<close> is
  its number of days after \<open>datetime.min\<close>.
\<close>

record concert =
  unique_id :: ustr
  show_id :: ustr
  artist :: ustr
  title :: ustr
  full_title :: ustr
  short_title :: ustr
  date :: ustr
  time :: ustr
  datetime :: ustr
  event_date :: "nat option"
  price :: ustr
  sold_tickets :: int
  max_tickets :: ustr
  seat_type :: ustr
  is_sold_out :: bool
  url :: ustr
  raw_data :: pydict

text \<open>
  The library calls of \<open>parse_show\<close> are parameters: \<open>hashlib.md5(...).hexdigest()\<close>,
  \<open>datetime.strptime(_, "%d/%m/%Y")\<close> (\<open>None\<close> where it raises \<open>ValueError\<close>),
  \<open>str.isdigit\<close> and \<open>int\<close> (\<open>None\<close> where it raises \<open>ValueError\<close>).
\<close>

record pylib =
  md5_hexdigest :: "ustr \<Rightarrow> ustr"
  strptime :: "ustr \<Rightarrow> nat option"
  isdigit :: "ustr \<Rightarrow> bool"
  int_of_str :: "ustr \<Rightarrow> int option"

definition base_url :: ustr where
  "base_url = str ''https://barby.co.il''"

text \<open>
  \<open>parse_show\<close>. With string-valued fields the only statement of its \<open>try\<close> block that
  can raise is \<open>int(show_sold)\<close>; the \<open>except\<close> then returns \<open>None\<close>. A missing
  \<open>showSold\<close> defaults to the integer 0, which \<open>int\<close> returns unchanged.
\<close>

definition parse_show :: "pylib \<Rightarrow> pydict \<Rightarrow> concert option" where
  "parse_show lib show_data =
     (let sid = dict_get show_data ''showId'' [];
          show_name = dict_get show_data ''showName'' (str ''Unknown Artist'');
          show_title = dict_get show_data ''showTitle'' [];
          show_short_title = dict_get show_data ''showShortTitle'' [];
          show_date = dict_get show_data ''showDate'' [];
          show_time = dict_get show_data ''showTime'' [];
          show_price = dict_get show_data ''showPrice'' [];
          show_sold_max = dict_get show_data ''showSoldMaxBuy'' [];
          seat = dict_get show_data ''showSeatType'' [];
          sold_out = (dict_get show_data ''notbybarbtsellsoldout'' (str ''0'') = str ''1'');
          datetime_str =
            (if show_date \<noteq> [] \<and> show_time \<noteq> [] then show_date @ str '' '' @ show_time
             else show_date);
          ev = (if show_date \<noteq> [] then strptime lib show_date else None);
          show_url = (if sid \<noteq> [] then base_url @ str ''/show/'' @ sid else base_url);
          uid = md5_hexdigest lib (sid @ str ''_'' @ show_date @ str ''_'' @ show_time);
          display_title =
            (if show_title \<noteq> [] then show_title
             else if show_short_title \<noteq> [] then show_short_title else show_name);
          sold =
            (case show_data ''showSold'' of
               None \<Rightarrow> Some 0
             | Some s \<Rightarrow> if isdigit lib s then int_of_str lib s else Some 0)
      in case sold of
           None \<Rightarrow> None
         | Some n \<Rightarrow>
             Some \<lparr>unique_id = uid, show_id = sid, artist = show_name, title = display_title,
                   full_title = show_title, short_title = show_short_title, date = show_date,
                   time = show_time, datetime = datetime_str, event_date = ev,
                   price = show_price, sold_tickets = n, max_tickets = show_sold_max,
                   seat_type = seat, is_sold_out = sold_out, url = show_url,
                   raw_data = show_data\<rparr>)"

text \<open>
  What \<open>session.get\<close> and \<open>response.json()\<close> produce. The JSON object either has
  \<open>returnShow.show\<close>, holding one show or an array of shows, or it has not; an object
  without it is empty (\<open>{}\<close>, falsy in Python) or not.
\<close>

datatype shows_data = OneShow pydict | ManyShows "pydict list"

datatype api_json = EmptyObject | OtherObject | ReturnShow shows_data

datatype http_result = RequestException | JSONDecodeError | UnexpectedError | Json api_json

text \<open>\<open>get_shows_raw\<close>: the data in both branches of its \<open>if\<close>, \<open>None\<close> in each \<open>except\<close>.\<close>

fun get_shows_raw :: "http_result \<Rightarrow> api_json option" where
  "get_shows_raw (Json data) = Some data"
| "get_shows_raw RequestException = None"
| "get_shows_raw JSONDecodeError = None"
| "get_shows_raw UnexpectedError = None"

fun shows_list :: "shows_data \<Rightarrow> pydict list" where
  "shows_list (OneShow d) = [d]"
| "shows_list (ManyShows ds) = ds"

definition sort_date :: "concert \<Rightarrow> nat" where
  "sort_date x = (case event_date x of Some d \<Rightarrow> d | None \<Rightarrow> 0)"

text \<open>
  \<open>get_concerts\<close>: \<open>if not raw_data: return []\<close> takes \<open>None\<close> and the empty object;
  an object without \<open>returnShow.show\<close> leaves \<open>shows\<close> empty; each show that parses is
  appended; \<open>list.sort\<close> is stable, as \<open>sort_key\<close> is.
\<close>

definition get_concerts :: "pylib \<Rightarrow> http_result \<Rightarrow> concert list" where
  "get_concerts lib http =
     (case get_shows_raw http of
        None \<Rightarrow> []
      | Some EmptyObject \<Rightarrow> []
      | Some OtherObject \<Rightarrow> sort_key sort_date []
      | Some (ReturnShow sd) \<Rightarrow>
          sort_key sort_date (List.map_filter (parse_show lib) (shows_list sd)))"


section \<open>The snapshot diff of \<open>lambda_handler\<close>\<close>

text \<open>
  A Python dict keeps its keys in insertion order, and storing under a key that is
  present replaces the value in place: an association list under \<open>AList.update\<close>.
  \<open>current_concerts\<close> is the dict comprehension
  \<open>{concert["show_id"]: concert for concert in concerts}\<close>.
\<close>

definition current_concerts :: "concert list \<Rightarrow> (ustr \<times> concert) list" where
  "current_concerts concerts = foldl (\<lambda>d c. AList.update (show_id c) c d) [] concerts"

text \<open>
  The loop that collects \<open>new_concerts\<close>: over \<open>current_concerts.items()\<close>, keeping the
  concert when \<open>concert_id not in last_concerts\<close>.
\<close>

definition new_concerts :: "(ustr \<times> concert) list \<Rightarrow> (ustr \<times> 'v) list \<Rightarrow> concert list" where
  "new_concerts current last_concerts =
     map snd (filter (\<lambda>(concert_id, concert). concert_id \<notin> set (map fst last_concerts)) current)"


section \<open>The cache: \<open>redis_logic/redis_concert_cache.py\<close>\<close>

text \<open>
  The Redis server is part of the state. Its string keys hold JSON texts (a concert or
  the metadata record), the hash \<open>barby:subscribers\<close> holds one JSON text per field;
  a JSON text is modelled by the value it encodes, and the hash field \<open>str(user_id)\<close>
  by the integer. Every command of the client can raise: \<open>raises\<close> says which do.
  \<open>send\<close> is the behaviour of the Telegram bot: \<open>None\<close> when the call returns, the
  text \<open>str(e)\<close> of the exception when it raises; it depends on the call alone.
  \<open>trace\<close> records, in order, every call of the bot and every line that the cache,
  the notifier and \<open>lambda_handler\<close> log. Entries expire after seven days in the
  source; time is not modelled.
\<close>

datatype redis_cmd = PING | KEYS | GET | EXEC | HSET | HDEL | HGETALL | HEXISTS | HLEN

record metadata =
  last_check :: ustr
  total_concerts :: nat
  updated_at :: ustr

datatype redis_value = ConcertJson concert | MetadataJson metadata

record subscriber =
  user_id :: int
  username :: ustr
  first_name :: ustr
  subscribed_at :: ustr

datatype transport_call =
    SendPhoto int ustr ustr
  | SendMessage int ustr

datatype level = Info | Warning | Error

datatype logline =
    LoadedConcerts nat
  | LastCheckWas ustr
  | LoadError
  | SavedConcerts nat
  | SaveError
  | AddedSubscriber ustr ustr
  | AddError
  | RemovedSubscriber int
  | SubscriberNotFound int
  | RemoveError
  | SubscribersError
  | CountError
  | NoSubscribers
  | SendingNotifications nat nat
  | PhotoSent int
  | TextSent int
  | SendFailed int ustr
  | FallbackSent int
  | RemovedInvalid int
  | Connected
  | ConnectError
  | Initializing
  | Fetching
  | Loading
  | NewConcerts nat
  | NoChanges
  | CheckError

datatype event = Call transport_call | Log level logline

record world =
  strings :: "(ustr \<times> redis_value) list"
  subscribers :: "(int \<times> subscriber) list"
  raises :: "redis_cmd \<Rightarrow> bool"
  send :: "transport_call \<Rightarrow> ustr option"
  trace :: "event list"

definition emit :: "event \<Rightarrow> world \<Rightarrow> world" where
  "emit e w = w\<lparr>trace := trace w @ [e]\<rparr>"

text \<open>The calls of the bot in a trace, in order.\<close>

fun calls :: "event list \<Rightarrow> transport_call list" where
  "calls [] = []"
| "calls (Call c # es) = c # calls es"
| "calls (Log l m # es) = calls es"

text \<open>
  Python values of several types: what \<open>remove_subscriber\<close> returns, and the values of
  the dict that \<open>parse_show\<close> builds.
\<close>

datatype pyval = VNone | VBool bool | VInt int | VStr ustr | VDate nat | VDict pydict

definition get_concert_key :: "ustr \<Rightarrow> ustr" where
  "get_concert_key concert_id = str ''barby:concert:'' @ concert_id"

definition get_metadata_key :: ustr where
  "get_metadata_key = str ''barby:metadata''"

text \<open>\<open>redis_client.keys("barby:concert:*")\<close>: the keys with that prefix.\<close>

definition concert_keys :: "world \<Rightarrow> ustr list" where
  "concert_keys w = filter (startswith (str ''barby:concert:'')) (map fst (strings w))"

text \<open>\<open>key.split(":")[-1]\<close>: what follows the last colon of the key.\<close>

definition last_segment :: "ustr \<Rightarrow> ustr" where
  "last_segment key = rev (takeWhile (\<lambda>c. c \<noteq> 0x3A) (rev key))"

text \<open>
  \<open>load_last_state\<close>. \<open>keys\<close> and \<open>get\<close> are inside the \<open>try\<close>; \<open>get\<close> is called
  for the metadata even when there is no concert key. The \<open>except\<close> returns
  \<open>({}, None)\<close>.
\<close>

definition load_last_state :: "world \<Rightarrow> ((ustr \<times> redis_value) list \<times> ustr option) \<times> world" where
  "load_last_state w =
     (if raises w KEYS \<or> raises w GET then (([], None), emit (Log Error LoadError) w)
      else
        let concerts =
              foldl (\<lambda>d key. case map_of (strings w) key of
                                 Some data \<Rightarrow> AList.update (last_segment key) data d
                               | None \<Rightarrow> d)
                [] (concert_keys w);
            last =
              (case map_of (strings w) get_metadata_key of
                 Some (MetadataJson m) \<Rightarrow> Some (last_check m)
               | _ \<Rightarrow> None);
            w1 = emit (Log Info (LoadedConcerts (length concerts))) w;
            w2 = (case last of Some t \<Rightarrow> emit (Log Info (LastCheckWas t)) w1 | None \<Rightarrow> w1)
        in ((concerts, last), w2))"

text \<open>
  \<open>save_state\<close>. \<open>keys\<close> runs at once, the deletions and the \<open>setex\<close> calls are queued
  on the pipeline and take effect at \<open>pipe.execute()\<close>, all or none. The copy that is
  stored has \<open>raw_data\<close> removed and \<open>event_date\<close> as its ISO text, which stands for
  the same date. The function catches every exception, logs it and
  returns \<open>None\<close> as it does on success. \<open>t1\<close> and \<open>t2\<close> are its two readings of
  \<open>datetime.now()\<close>.
\<close>

definition save_state :: "ustr \<Rightarrow> ustr \<Rightarrow> (ustr \<times> concert) list \<Rightarrow> world \<Rightarrow> world" where
  "save_state t1 t2 concerts w =
     (if raises w KEYS \<or> raises w EXEC then emit (Log Error SaveError) w
      else
        let old_keys = concert_keys w;
            cleared = filter (\<lambda>(k, v). k \<notin> set old_keys) (strings w);
            written =
              foldl (\<lambda>kv (concert_id, c).
                       AList.update (get_concert_key concert_id)
                         (ConcertJson (c\<lparr>raw_data := Map.empty\<rparr>)) kv)
                cleared concerts;
            meta = \<lparr>last_check = t1, total_concerts = length concerts, updated_at = t2\<rparr>;
            stored = AList.update get_metadata_key (MetadataJson meta) written
        in emit (Log Info (SavedConcerts (length concerts))) (w\<lparr>strings := stored\<rparr>))"

definition add_subscriber :: "ustr \<Rightarrow> int \<Rightarrow> ustr \<Rightarrow> ustr \<Rightarrow> world \<Rightarrow> world" where
  "add_subscriber now uid uname fname w =
     (if raises w HSET then emit (Log Error AddError) w
      else
        let user_data = \<lparr>user_id = uid, username = uname, first_name = fname, subscribed_at = now\<rparr>
        in emit (Log Info (AddedSubscriber fname uname))
             (w\<lparr>subscribers := AList.update uid user_data (subscribers w)\<rparr>))"

text \<open>
  \<open>remove_subscriber\<close>. \<open>hdel\<close> returns the number of fields it removed; the function
  only logs on it. It has no \<open>return\<close> statement: its value is \<open>None\<close> on every path.
\<close>

definition remove_subscriber :: "int \<Rightarrow> world \<Rightarrow> pyval \<times> world" where
  "remove_subscriber uid w =
     (if raises w HDEL then (VNone, emit (Log Error RemoveError) w)
      else if uid \<in> set (map fst (subscribers w))
      then (VNone, emit (Log Info (RemovedSubscriber uid))
                     (w\<lparr>subscribers := AList.delete uid (subscribers w)\<rparr>))
      else (VNone, emit (Log Warning (SubscriberNotFound uid)) w))"

definition get_all_subscribers :: "world \<Rightarrow> subscriber list \<times> world" where
  "get_all_subscribers w =
     (if raises w HGETALL then ([], emit (Log Error SubscribersError) w)
      else (map snd (subscribers w), w))"

text \<open>\<open>subscriber_exists\<close> has no \<open>try\<close>: an exception of \<open>hexists\<close> propagates.\<close>

datatype exn = RedisError

definition subscriber_exists :: "int \<Rightarrow> world \<Rightarrow> exn + bool" where
  "subscriber_exists uid w =
     (if raises w HEXISTS then Inl RedisError else Inr (uid \<in> set (map fst (subscribers w))))"

definition get_subscriber_count :: "world \<Rightarrow> nat \<times> world" where
  "get_subscriber_count w =
     (if raises w HLEN then (0, emit (Log Error CountError) w)
      else (length (subscribers w), w))"


section \<open>The notifier: \<open>BarbyConcertNotifier\<close> of \<open>aws_lambda/lambda_function.py\<close>\<close>

text \<open>
  The notifier reads a concert only through \<open>concert.get(key, default)\<close> with the field
  names of the upstream JSON. The pieces of \<open>format_single_concert_message\<close> follow,
  each named as the local variable that holds it.
\<close>

definition sold_out_status :: ustr where
  "sold_out_status =
     [0x20, 0x1F534] @ str '' <b>'' @ [0x5D0, 0x5D6, 0x5DC, 0x20, 0x5DB, 0x5E8, 0x5D8, 0x5D9,
      0x5E1, 0x5D9, 0x5DD] @ str ''</b>''"

definition msg_artist :: "pydict \<Rightarrow> ustr" where
  "msg_artist concert = py_strip (dict_get concert ''showName'' (str ''Unknown Artist''))"

definition msg_status :: "pydict \<Rightarrow> ustr" where
  "msg_status concert =
     (if dict_get concert ''notbybarbtsellsoldout'' (str ''0'') = str ''1''
      then sold_out_status else [])"

definition price_text :: "pydict \<Rightarrow> ustr" where
  "price_text concert =
     (let p = dict_get concert ''showPrice'' []
      in if p \<noteq> [] then [0x20AA] @ p else str ''TBA'')"

definition datetime_str :: "pydict \<Rightarrow> ustr" where
  "datetime_str concert =
     (let d = dict_get concert ''showDate'' []; t = dict_get concert ''showTime'' []
      in if d \<noteq> [] \<and> t \<noteq> [] then d @ str '' '' @ t
         else if d \<noteq> [] then d else str ''TBA'')"

definition msg_url :: "pydict \<Rightarrow> ustr" where
  "msg_url concert =
     (let sid = dict_get concert ''showId'' []
      in if sid \<noteq> [] then str ''https://barby.co.il/show/'' @ sid
         else str ''https://barby.co.il'')"

text \<open>\<open>display_title = title or short_title\<close>, both stripped.\<close>

definition display_title :: "pydict \<Rightarrow> ustr" where
  "display_title concert =
     (let t = py_strip (dict_get concert ''showTitle'' []);
          s = py_strip (dict_get concert ''showShortTitle'' [])
      in if t \<noteq> [] then t else s)"

definition clean_title :: "pydict \<Rightarrow> ustr" where
  "clean_title concert = py_join (str '' '') (py_split (display_title concert))"

text \<open>The title line: what the \<open>if\<close> on \<open>display_title\<close> adds to the message.\<close>

definition title_line :: "pydict \<Rightarrow> ustr" where
  "title_line concert =
     (if display_title concert \<noteq> [] \<and> display_title concert \<noteq> msg_artist concert \<and>
         length (py_strip (display_title concert)) > 3
      then [0x1F4DD] @ str '' <i>'' @ clean_title concert @ str ''</i>'' @ [0x0A]
      else [])"

text \<open>
  The message is built by successive \<open>message +=\<close>; the pieces are grouped here by
  the line of the message they make up.
\<close>

definition header_line :: ustr where
  "header_line =
     [0x1F195] @ str '' <b>'' @ [0x5D4, 0x5D5, 0x5E4, 0x5E2, 0x5D4, 0x20, 0x5D7, 0x5D3, 0x5E9,
       0x5D4, 0x20, 0x5D1, 0x5D1, 0x5D0, 0x5E8, 0x5D1, 0x5D9] @ str ''!</b>'' @ [0x0A, 0x0A]"

definition artist_line :: "pydict \<Rightarrow> ustr" where
  "artist_line concert = [0x1F3B5] @ str '' <b>'' @ msg_artist concert @ str ''</b>'' @ [0x0A]"

definition date_line :: "pydict \<Rightarrow> ustr" where
  "date_line concert = [0x1F4C5, 0x20] @ datetime_str concert @ [0x0A]"

definition seat_text :: "pydict \<Rightarrow> ustr" where
  "seat_text concert =
     (let seat = dict_get concert ''showSeatType'' []
      in if seat \<noteq> [] then [0x20, 0x2022, 0x20] @ seat else [])"

definition price_line :: "pydict \<Rightarrow> ustr" where
  "price_line concert =
     [0x1F4B0, 0x20] @ price_text concert @ seat_text concert @ msg_status concert @ [0x0A]"

definition ticket_line :: "pydict \<Rightarrow> ustr" where
  "ticket_line concert =
     [0x1F3AB] @ str '' <a href='' @ [0x22] @ msg_url concert @ [0x22] @ str ''>'' @
     [0x5E7, 0x5E0, 0x5D9, 0x5D9, 0x5EA, 0x20, 0x5DB, 0x5E8, 0x5D8, 0x5D9, 0x5E1, 0x5D9, 0x5DD] @
     str ''</a>'' @ [0x0A, 0x0A]"

definition footer_line :: ustr where
  "footer_line =
     [0x1F514, 0x20, 0x5D4, 0x5D5, 0x5D3, 0x5E2, 0x5D4, 0x20, 0x5DE, 0x5D1, 0x5D5, 0x5D8, 0x20,
      0x5D4, 0x5EA, 0x5E8, 0x5D0, 0x5D5, 0x5EA, 0x20, 0x5D1, 0x5D0, 0x5E8, 0x5D1, 0x5D9]"

definition format_single_concert_message :: "pydict \<Rightarrow> ustr" where
  "format_single_concert_message concert =
     header_line @ artist_line concert @ title_line concert @ date_line concert @
     price_line concert @ ticket_line concert @ footer_line"

definition get_concert_image_url :: "pydict \<Rightarrow> ustr option" where
  "get_concert_image_url concert =
     (let show_image = dict_get concert ''showImage'' []
      in if show_image \<noteq> []
         then Some (str ''https://images.barby.co.il/Logos/'' @ py_strip show_image)
         else None)"

text \<open>\<open>if image_url:\<close> holds for a non-empty string, not for \<open>None\<close>.\<close>

definition truthy :: "ustr option \<Rightarrow> bool" where
  "truthy v = (case v of Some s \<Rightarrow> s \<noteq> [] | None \<Rightarrow> False)"

text \<open>The two tests that \<open>send_concert_notification\<close> makes on \<open>str(e).lower()\<close>.\<close>

definition is_photo_error :: "ustr \<Rightarrow> bool" where
  "is_photo_error e = py_in (str ''photo'') (py_lower e)"

definition is_invalid_subscriber_error :: "ustr \<Rightarrow> bool" where
  "is_invalid_subscriber_error e =
     (py_in (str ''chat not found'') (py_lower e) \<or> py_in (str ''bot was blocked'') (py_lower e))"

text \<open>
  The first call for one subscriber: \<open>send_photo\<close> when there is an image,
  \<open>send_message\<close> otherwise.
\<close>

definition first_call :: "ustr \<Rightarrow> ustr option \<Rightarrow> int \<Rightarrow> transport_call" where
  "first_call message image_url uid =
     (case image_url of
        Some u \<Rightarrow> if u \<noteq> [] then SendPhoto uid u message else SendMessage uid message
      | None \<Rightarrow> SendMessage uid message)"

text \<open>
  The body of the loop over \<open>subscribers.copy()\<close>. After a failed first call the
  \<open>except\<close> branch retries with text when the error mentions a photo and there is an
  image (the retry's own exception is dropped by \<open>except: pass\<close>), and then removes the
  subscriber when the error of the first call names an invalid subscriber.
\<close>

definition notify_subscriber :: "ustr \<Rightarrow> ustr option \<Rightarrow> world \<Rightarrow> subscriber \<Rightarrow> world" where
  "notify_subscriber message image_url w sub =
     (let uid = user_id sub;
          call = first_call message image_url uid;
          w1 = emit (Call call) w
      in case send w call of
           None \<Rightarrow> emit (Log Info (if truthy image_url then PhotoSent uid else TextSent uid)) w1
         | Some e \<Rightarrow>
             let w2 = emit (Log Error (SendFailed uid e)) w1;
                 w3 =
                   (if is_photo_error e \<and> truthy image_url
                    then let w' = emit (Call (SendMessage uid message)) w2
                         in case send w (SendMessage uid message) of
                              None \<Rightarrow> emit (Log Info (FallbackSent uid)) w'
                            | Some e' \<Rightarrow> w'
                    else w2)
             in if is_invalid_subscriber_error e
                then emit (Log Info (RemovedInvalid uid)) (snd (remove_subscriber uid w3))
                else w3)"

definition send_concert_notification :: "world \<Rightarrow> pydict \<Rightarrow> world" where
  "send_concert_notification w concert =
     (let message = format_single_concert_message concert;
          image_url = get_concert_image_url concert;
          (subs, w1) = get_all_subscribers w
      in foldl (notify_subscriber message image_url) w1 subs)"

definition notify_new_concerts :: "pydict list \<Rightarrow> world \<Rightarrow> world" where
  "notify_new_concerts new w =
     (if new = [] then w
      else
        let (num_of_subscribers, w1) = get_subscriber_count w
        in if num_of_subscribers = 0 then emit (Log Info NoSubscribers) w1
           else foldl send_concert_notification
                  (emit (Log Info (SendingNotifications (length new) num_of_subscribers)) w1) new)"


section \<open>The entry point: \<open>lambda_handler\<close>\<close>

text \<open>
  \<open>lambda_handler\<close> hands the notifier the dicts that \<open>parse_show\<close> returned.
  \<open>concert_items\<close> lists the keys and values of such a dict, and \<open>as_dict\<close> is what
  \<open>.get\<close> reads from it at a key with a string value.
\<close>

definition concert_items :: "concert \<Rightarrow> (string \<times> pyval) list" where
  "concert_items c =
     [(''id'', VStr (unique_id c)), (''show_id'', VStr (show_id c)),
      (''artist'', VStr (artist c)), (''title'', VStr (title c)),
      (''full_title'', VStr (full_title c)), (''short_title'', VStr (short_title c)),
      (''date'', VStr (date c)), (''time'', VStr (time c)), (''datetime'', VStr (datetime c)),
      (''event_date'', (case event_date c of Some d \<Rightarrow> VDate d | None \<Rightarrow> VNone)),
      (''price'', VStr (price c)), (''sold_tickets'', VInt (sold_tickets c)),
      (''max_tickets'', VStr (max_tickets c)), (''seat_type'', VStr (seat_type c)),
      (''is_sold_out'', VBool (is_sold_out c)), (''url'', VStr (url c)),
      (''raw_data'', VDict (raw_data c))]"

definition as_dict :: "concert \<Rightarrow> pydict" where
  "as_dict c k = (case map_of (concert_items c) k of Some (VStr s) \<Rightarrow> Some s | _ \<Rightarrow> None)"

record response =
  statusCode :: nat
  body :: ustr

text \<open>
  The two bodies: \<open>json.dumps({"message": "No concerts found"})\<close> and
  \<open>json.dumps("Success!")\<close>.
\<close>

definition no_concerts_body :: ustr where
  "no_concerts_body =
     str ''{'' @ [0x22] @ str ''message'' @ [0x22] @ str '': '' @ [0x22] @
     str ''No concerts found'' @ [0x22] @ str ''}''"

definition success_body :: ustr where
  "success_body = [0x22] @ str ''Success!'' @ [0x22]"

text \<open>
  \<open>lambda_handler\<close>. The whole body is one \<open>try\<close>; its \<open>except\<close> logs and falls off the
  end of the function, which returns \<open>None\<close>. The constructor of the cache pings the
  server and re-raises; the constructor of the notifier reads the bot token from the
  environment (\<open>token\<close>: the variable is set).
\<close>

definition lambda_handler ::
  "pylib \<Rightarrow> bool \<Rightarrow> http_result \<Rightarrow> ustr \<Rightarrow> ustr \<Rightarrow> world \<Rightarrow> response option \<times> world" where
  "lambda_handler lib token http t1 t2 w =
     (let w0 = emit (Log Info Initializing) w
      in if raises w PING
         then (None, emit (Log Error CheckError) (emit (Log Error ConnectError) w0))
         else
           let wc = emit (Log Info Connected) w0
           in if \<not> token then (None, emit (Log Error CheckError) wc)
              else
                let w1 = emit (Log Info Fetching) wc;
                    concerts = get_concerts lib http
                in if concerts = []
                   then (Some \<lparr>statusCode = 200,
                                body = no_concerts_body\<rparr>, w1)
                   else
                     let current = current_concerts concerts;
                         w2 = emit (Log Info Loading) w1;
                         ((last_concerts, last), w3) = load_last_state w2;
                         new = new_concerts current last_concerts
                     in if new \<noteq> []
                        then
                          let w4 = emit (Log Info (NewConcerts (length new))) w3;
                              w5 = save_state t1 t2 current w4;
                              w6 = notify_new_concerts (map as_dict new) w5
                          in (Some \<lparr>statusCode = 200, body = success_body\<rparr>, w6)
                        else (Some \<lparr>statusCode = 200, body = success_body\<rparr>,
                              emit (Log Info NoChanges) w3))"


text \<open>
  Two names for the statements about an invocation: \<open>detected\<close> is its diff result, the
  new concerts that \<open>lambda_handler\<close> computes from the fetch and the stored snapshot;
  \<open>before_save\<close> is the world in which it calls \<open>save_state\<close>, the given one with
  the log lines written so far.
\<close>

definition detected :: "pylib \<Rightarrow> http_result \<Rightarrow> world \<Rightarrow> concert list" where
  "detected lib http w =
     new_concerts (current_concerts (get_concerts lib http)) (fst (fst (load_last_state w)))"

definition before_save :: "nat \<Rightarrow> world \<Rightarrow> world" where
  "before_save n w =
     emit (Log Info (NewConcerts n))
       (snd (load_last_state
          (emit (Log Info Loading) (emit (Log Info Fetching) (emit (Log Info Connected)
             (emit (Log Info Initializing) w))))))"


section \<open>What a dispatch pass is to do\<close>

text \<open>
  The statements about a dispatch pass compare the trace of the loops with what the pass
  is to do, written without the loops' state. \<open>delivery_attempts\<close> are the calls for
  one subscriber and one message: the first call, and the text retry after a photo
  error when there is an image. \<open>permanently_failed\<close> holds when the first call raised
  an error that names an invalid subscriber. \<open>dispatch_calls\<close> are the calls of a whole
  dispatch: item by item, each item to the subscribers that are left, in registry order.
  \<open>registry_ok\<close> is what \<open>add_subscriber\<close> maintains: the hash has one entry per
  field, and the field is the \<open>user_id\<close> of the entry.
\<close>

fun chat_id :: "transport_call \<Rightarrow> int" where
  "chat_id (SendPhoto uid u m) = uid"
| "chat_id (SendMessage uid m) = uid"

definition delivery_attempts ::
  "ustr \<Rightarrow> ustr option \<Rightarrow> (transport_call \<Rightarrow> ustr option) \<Rightarrow> int \<Rightarrow> transport_call list" where
  "delivery_attempts message image_url snd_fn uid =
     (let call = first_call message image_url uid
      in case snd_fn call of
           None \<Rightarrow> [call]
         | Some e \<Rightarrow>
             if is_photo_error e \<and> truthy image_url then [call, SendMessage uid message]
             else [call])"

definition permanently_failed ::
  "ustr \<Rightarrow> ustr option \<Rightarrow> (transport_call \<Rightarrow> ustr option) \<Rightarrow> int \<Rightarrow> bool" where
  "permanently_failed message image_url snd_fn uid =
     (case snd_fn (first_call message image_url uid) of
        None \<Rightarrow> False
      | Some e \<Rightarrow> is_invalid_subscriber_error e)"

definition registry_ok :: "(int \<times> subscriber) list \<Rightarrow> bool" where
  "registry_ok al = (distinct (map fst al) \<and> (\<forall>(k, s) \<in> set al. user_id s = k))"

fun dispatch_calls ::
  "(transport_call \<Rightarrow> ustr option) \<Rightarrow> (int \<times> subscriber) list \<Rightarrow> pydict list \<Rightarrow>
   transport_call list" where
  "dispatch_calls snd_fn al [] = []"
| "dispatch_calls snd_fn al (c # cs) =
     (let m = format_single_concert_message c; img = get_concert_image_url c
      in concat (map (\<lambda>(k, s). delivery_attempts m img snd_fn k) al) @
         dispatch_calls snd_fn (filter (\<lambda>(k, s). \<not> permanently_failed m img snd_fn k) al) cs)"


section \<open>Sample data\<close>

text \<open>A parsed show with a given \<open>show_id\<close> and price, for the concrete instances below.\<close>

definition sample_concert :: "ustr \<Rightarrow> ustr \<Rightarrow> concert" where
  "sample_concert sid p =
     \<lparr>unique_id = sid, show_id = sid, artist = str ''X'', title = str ''X'', full_title = [],
      short_title = [], date = [], time = [], datetime = [], event_date = None, price = p,
      sold_tickets = 0, max_tickets = [], seat_type = [], is_sold_out = False,
      url = base_url, raw_data = Map.empty\<rparr>"


text \<open>
  Library functions, a subscriber and a world for the concrete instances: the world has
  an empty store, the subscribers \<open>uids\<close>, and the given behaviour of Redis and of the bot.
\<close>

definition sample_lib :: pylib where
  "sample_lib = \<lparr>md5_hexdigest = (\<lambda>s. s), strptime = (\<lambda>s. None), isdigit = (\<lambda>s. False),
                  int_of_str = (\<lambda>s. None)\<rparr>"

definition sample_subscriber :: "int \<Rightarrow> subscriber" where
  "sample_subscriber uid = \<lparr>user_id = uid, username = [], first_name = [], subscribed_at = []\<rparr>"

definition sample_world ::
  "int list \<Rightarrow> (redis_cmd \<Rightarrow> bool) \<Rightarrow> (transport_call \<Rightarrow> ustr option) \<Rightarrow> world" where
  "sample_world uids r s =
     \<lparr>strings = [], subscribers = map (\<lambda>u. (u, sample_subscriber u)) uids, raises = r, send = s,
      trace = []\<rparr>"


text \<open>
  Two shows as the upstream API sends them: one whose title has two spaces between two
  letters, one that is sold out and has neither price nor time.
\<close>

definition spaced_title :: pydict where
  "spaced_title = [''showName'' \<mapsto> str ''X'', ''showTitle'' \<mapsto> [0x61, 0x20, 0x20, 0x62]]"

definition sold_out_show :: pydict where
  "sold_out_show =
     [''showName'' \<mapsto> str ''X'', ''showTitle'' \<mapsto> str ''Live at Barby'',
      ''showDate'' \<mapsto> str ''20/08/2025'', ''notbybarbtsellsoldout'' \<mapsto> str ''1'']"


text \<open>
  Two error texts of the Telegram API, a show with an image, and three behaviours of the
  bot: the chat 2 has blocked the bot; photos fail and the text retry is refused by a
  user who blocked the bot; photos fail and texts arrive.
\<close>

definition blocked_error :: ustr where
  "blocked_error = str ''Forbidden: bot was blocked by the user''"

definition photo_error :: ustr where
  "photo_error = str ''Bad Request: PHOTO_INVALID_DIMENSIONS''"

definition image_show :: pydict where
  "image_show = [''showName'' \<mapsto> str ''X'', ''showImage'' \<mapsto> str ''x.jpg'']"

definition blocks_second :: "transport_call \<Rightarrow> ustr option" where
  "blocks_second c = (if chat_id c = 2 then Some blocked_error else None)"

definition photo_then_blocked :: "transport_call \<Rightarrow> ustr option" where
  "photo_then_blocked c =
     (case c of SendPhoto uid u m \<Rightarrow> Some photo_error | SendMessage uid m \<Rightarrow> Some blocked_error)"

definition photo_fails :: "transport_call \<Rightarrow> ustr option" where
  "photo_fails c = (case c of SendPhoto uid u m \<Rightarrow> Some photo_error | SendMessage uid m \<Rightarrow> None)"


text \<open>
  A fetch that returns the single show \<open>5286\<close> with no other field, and what
  \<open>parse_show\<close> makes of it with \<open>sample_lib\<close>.
\<close>

definition one_show_http :: http_result where
  "one_show_http = Json (ReturnShow (OneShow [''showId'' \<mapsto> str ''5286'']))"

definition parsed_5286 :: concert where
  "parsed_5286 =
     \<lparr>unique_id = str ''5286__'', show_id = str ''5286'', artist = str ''Unknown Artist'',
      title = str ''Unknown Artist'', full_title = [], short_title = [], date = [], time = [],
      datetime = [], event_date = None, price = [], sold_tickets = 0, max_tickets = [],
      seat_type = [], is_sold_out = False, url = str ''https://barby.co.il/show/5286'',
      raw_data = [''showId'' \<mapsto> str ''5286'']\<rparr>"


text \<open>
  A show as the upstream API sends it, sold out, with a price, a date and a time; the
  fetch that returns it; and what \<open>parse_show\<close> makes of it with \<open>sample_lib\<close>.
\<close>

definition sold_out_priced_show :: pydict where
  "sold_out_priced_show =
     [''showId'' \<mapsto> str ''5286'', ''showName'' \<mapsto> str ''X'',
      ''showDate'' \<mapsto> str ''20/08/2025'', ''showTime'' \<mapsto> str ''20:30'',
      ''showPrice'' \<mapsto> str ''185'', ''notbybarbtsellsoldout'' \<mapsto> str ''1'']"

definition sold_out_http :: http_result where
  "sold_out_http = Json (ReturnShow (OneShow sold_out_priced_show))"

definition parsed_sold_out :: concert where
  "parsed_sold_out =
     \<lparr>unique_id = str ''5286_20/08/2025_20:30'', show_id = str ''5286'', artist = str ''X'',
      title = str ''X'', full_title = [], short_title = [], date = str ''20/08/2025'',
      time = str ''20:30'', datetime = str ''20/08/2025 20:30'', event_date = None,
      price = str ''185'', sold_tickets = 0, max_tickets = [], seat_type = [],
      is_sold_out = True, url = str ''https://barby.co.il/show/5286'',
      raw_data = sold_out_priced_show\<rparr>"


section \<open>Facts about the diff\<close>

lemma update_fresh_key:
  "k \<notin> set (map fst al) \<Longrightarrow> AList.update k v al = al @ [(k, v)]"
  by (induction al) auto

lemma foldl_update_distinct:
  "distinct (map show_id cs) \<Longrightarrow> set (map show_id cs) \<inter> set (map fst acc) = {} \<Longrightarrow>
   foldl (\<lambda>d c. AList.update (show_id c) c d) acc cs = acc @ map (\<lambda>c. (show_id c, c)) cs"
proof (induction cs arbitrary: acc)
  case Nil
  then show ?case by simp
next
  case (Cons c cs)
  have fresh: "show_id c \<notin> set (map fst acc)"
    using Cons.prems(2) by auto
  have step: "AList.update (show_id c) c acc = acc @ [(show_id c, c)]"
    using fresh by (rule update_fresh_key)
  have disj: "set (map show_id cs) \<inter> set (map fst (acc @ [(show_id c, c)])) = {}"
    using Cons.prems by auto
  have "foldl (\<lambda>d c. AList.update (show_id c) c d) (acc @ [(show_id c, c)]) cs =
        (acc @ [(show_id c, c)]) @ map (\<lambda>c. (show_id c, c)) cs"
    using Cons.IH [OF _ disj] Cons.prems(1) by simp
  then show ?case by (simp add: step)
qed

lemma current_concerts_distinct:
  "distinct (map show_id cs) \<Longrightarrow> current_concerts cs = map (\<lambda>c. (show_id c, c)) cs"
  using foldl_update_distinct [of cs "[]"] by (simp add: current_concerts_def)

lemma keys_foldl_update:
  "set (map fst (foldl (\<lambda>d c. AList.update (show_id c) c d) acc cs)) =
   set (map fst acc) \<union> set (map show_id cs)"
proof (induction cs arbitrary: acc)
  case Nil
  then show ?case by simp
next
  case (Cons c cs)
  have "set (map fst (AList.update (show_id c) c acc)) = insert (show_id c) (set (map fst acc))"
    using dom_update [of "show_id c" c acc] by (simp add: dom_map_of_conv_image_fst)
  then show ?case using Cons.IH [of "AList.update (show_id c) c acc"] by auto
qed

lemma keys_current_concerts:
  "set (map fst (current_concerts cs)) = set (map show_id cs)"
  using keys_foldl_update [of "[]" cs] by (simp add: current_concerts_def)

lemma new_concerts_filter:
  "new_concerts (map (\<lambda>c. (show_id c, c)) cs) last_concerts =
   filter (\<lambda>c. show_id c \<notin> set (map fst last_concerts)) cs"
  by (induction cs) (auto simp: new_concerts_def)

text \<open>
  C1. For a current list with unique \<open>show_id\<close>s and any previous snapshot, the diff is
  the current list filtered by "the \<open>show_id\<close> is not a key of the previous snapshot":
  exactly those records, in the order of the current list. So a record whose
  \<open>show_id\<close> is a key of the previous snapshot is never in the diff, whatever its other
  fields are.
\<close>

theorem diff_is_filter_of_current:
  "distinct (map show_id concerts) \<Longrightarrow>
   new_concerts (current_concerts concerts) last_concerts =
     filter (\<lambda>c. show_id c \<notin> set (map fst last_concerts)) concerts"
  by (simp add: current_concerts_distinct new_concerts_filter)

text \<open>
  An instance of C1: the show \<open>1\<close> is in the previous snapshot with another price and
  is left out; the show \<open>2\<close> is new.
\<close>

theorem diff_is_filter_of_current_witness:
  "distinct (map show_id
     [sample_concert (str ''1'') (str ''50''), sample_concert (str ''2'') (str ''60'')]) \<and>
   new_concerts
     (current_concerts
        [sample_concert (str ''1'') (str ''50''), sample_concert (str ''2'') (str ''60'')])
     [(str ''1'', sample_concert (str ''1'') (str ''40''))] =
   [sample_concert (str ''2'') (str ''60'')]"
  using diff_is_filter_of_current
    [of "[sample_concert (str ''1'') (str ''50''), sample_concert (str ''2'') (str ''60'')]"
        "[(str ''1'', sample_concert (str ''1'') (str ''40''))]"]
  by (simp add: sample_concert_def str_def)

text \<open>
  C7. The diff of a list against the snapshot built from that list (the dict
  \<open>current_concerts\<close> that \<open>lambda_handler\<close> saves) is empty. It holds for every
  list, with unique ids or not.
\<close>

theorem diff_against_own_snapshot_is_empty:
  "new_concerts (current_concerts concerts) (current_concerts concerts) = []"
  by (simp add: new_concerts_def keys_current_concerts filter_empty_conv split_beta)

section \<open>Facts about the trace and the registry\<close>

lemma calls_append [simp]: "calls (xs @ ys) = calls xs @ calls ys"
  by (induction xs rule: calls.induct) simp_all

lemma emit_fields [simp]:
  "trace (emit e w) = trace w @ [e]"
  "strings (emit e w) = strings w"
  "subscribers (emit e w) = subscribers w"
  "raises (emit e w) = raises w"
  "send (emit e w) = send w"
  by (simp_all add: emit_def)

lemma delete_removes_key: "k \<notin> set (map fst (AList.delete k al))"
  by (induction al) auto

lemma delete_absent_key: "k \<notin> set (map fst al) \<Longrightarrow> AList.delete k al = al"
  by (induction al) auto

text \<open>
  C9, as stated, fails: \<open>remove_subscriber\<close> returns \<open>None\<close>, not \<open>True\<close>, when it
  removes a subscriber that was present.
\<close>

theorem remove_returns_no_boolean:
  "fst (remove_subscriber 7 (sample_world [7] (\<lambda>c. False) (\<lambda>c. None))) = VNone \<and>
   7 \<in> set (map fst (subscribers (sample_world [7] (\<lambda>c. False) (\<lambda>c. None)))) \<and>
   fst (remove_subscriber 7 (sample_world [7] (\<lambda>c. False) (\<lambda>c. None))) \<noteq> VBool True"
  by (simp add: remove_subscriber_def sample_world_def)

text \<open>
  C9, amended. \<open>remove_subscriber\<close> returns \<open>None\<close> on every path and never raises.
  When \<open>hdel\<close> raises, the error is logged and nothing changes. Otherwise the user is
  absent afterwards, the other entries are as before, and the outcome is reported by
  the log line alone: "Removed subscriber" at level info when the user was present,
  "not found" at level warning when it was absent.
\<close>

theorem remove_subscriber_logs_outcome:
  "fst (remove_subscriber uid w) = VNone \<and>
   (raises w HDEL \<longrightarrow> snd (remove_subscriber uid w) = emit (Log Error RemoveError) w) \<and>
   (\<not> raises w HDEL \<longrightarrow>
      uid \<notin> set (map fst (subscribers (snd (remove_subscriber uid w)))) \<and>
      subscribers (snd (remove_subscriber uid w)) = AList.delete uid (subscribers w) \<and>
      trace (snd (remove_subscriber uid w)) =
        trace w @ [if uid \<in> set (map fst (subscribers w)) then Log Info (RemovedSubscriber uid)
                   else Log Warning (SubscriberNotFound uid)])"
  using delete_removes_key [of uid "subscribers w"] delete_absent_key [of uid "subscribers w"]
  by (simp add: remove_subscriber_def)

theorem remove_subscriber_logs_outcome_witness:
  "\<not> raises (sample_world [7] (\<lambda>c. False) (\<lambda>c. None)) HDEL \<and>
   subscribers (snd (remove_subscriber 8 (sample_world [7] (\<lambda>c. False) (\<lambda>c. None)))) =
     [(7, sample_subscriber 7)] \<and>
   trace (snd (remove_subscriber 8 (sample_world [7] (\<lambda>c. False) (\<lambda>c. None)))) =
     [Log Warning (SubscriberNotFound 8)] \<and>
   subscribers (snd (remove_subscriber 7 (sample_world [7] (\<lambda>c. False) (\<lambda>c. None)))) = [] \<and>
   trace (snd (remove_subscriber 7 (sample_world [7] (\<lambda>c. False) (\<lambda>c. None)))) =
     [Log Info (RemovedSubscriber 7)]"
  using remove_subscriber_logs_outcome [of 8 "sample_world [7] (\<lambda>c. False) (\<lambda>c. None)"]
    remove_subscriber_logs_outcome [of 7 "sample_world [7] (\<lambda>c. False) (\<lambda>c. None)"]
  by (simp add: sample_world_def)


section \<open>An unreachable registry\<close>

lemma send_concert_notification_unreachable:
  "raises w HGETALL \<Longrightarrow>
   send_concert_notification w concert = emit (Log Error SubscribersError) w"
  by (simp add: send_concert_notification_def get_all_subscribers_def)

lemma foldl_send_unreachable:
  "raises w HGETALL \<Longrightarrow>
   calls (trace (foldl send_concert_notification w new)) = calls (trace w) \<and>
   raises (foldl send_concert_notification w new) = raises w \<and>
   subscribers (foldl send_concert_notification w new) = subscribers w \<and>
   strings (foldl send_concert_notification w new) = strings w"
proof (induction new arbitrary: w)
  case Nil
  then show ?case by simp
next
  case (Cons c new)
  have step: "send_concert_notification w c = emit (Log Error SubscribersError) w"
    using Cons.prems by (rule send_concert_notification_unreachable)
  have "raises (emit (Log Error SubscribersError) w) HGETALL"
    using Cons.prems by simp
  from Cons.IH [OF this] show ?case
    by (simp add: step)
qed

text \<open>
  C10. When \<open>hlen\<close> raises, \<open>get_subscriber_count\<close> returns 0; when \<open>hgetall\<close>
  raises, \<open>get_all_subscribers\<close> returns the empty list. A dispatch pass over a
  registry whose reads raise then calls the bot not once and changes neither the
  registry nor the store; with \<open>hlen\<close> raising, the pass ends after two log lines, the
  cache's error and the notifier's "No subscribers to notify" at level info. The
  model of \<open>notify_new_concerts\<close> has no exceptional result, every \<open>raise\<close> of the
  registry being caught inside the cache.
\<close>

theorem unreachable_registry_skips_dispatch:
  "(raises w HLEN \<longrightarrow> fst (get_subscriber_count w) = 0) \<and>
   (raises w HGETALL \<longrightarrow> fst (get_all_subscribers w) = []) \<and>
   (raises w HLEN \<and> new \<noteq> [] \<longrightarrow>
      notify_new_concerts new w = emit (Log Info NoSubscribers) (emit (Log Error CountError) w)) \<and>
   (raises w HLEN \<or> raises w HGETALL \<longrightarrow>
      calls (trace (notify_new_concerts new w)) = calls (trace w) \<and>
      subscribers (notify_new_concerts new w) = subscribers w \<and>
      strings (notify_new_concerts new w) = strings w)"
proof -
  have count: "raises w HLEN \<longrightarrow> fst (get_subscriber_count w) = 0"
    by (simp add: get_subscriber_count_def)
  have all: "raises w HGETALL \<longrightarrow> fst (get_all_subscribers w) = []"
    by (simp add: get_all_subscribers_def)
  have skip: "raises w HLEN \<and> new \<noteq> [] \<longrightarrow>
      notify_new_concerts new w = emit (Log Info NoSubscribers) (emit (Log Error CountError) w)"
    by (simp add: notify_new_concerts_def get_subscriber_count_def)
  have hlen: "raises w HLEN \<Longrightarrow>
      calls (trace (notify_new_concerts new w)) = calls (trace w) \<and>
      subscribers (notify_new_concerts new w) = subscribers w \<and>
      strings (notify_new_concerts new w) = strings w"
    by (simp add: notify_new_concerts_def get_subscriber_count_def)
  have hgetall: "raises w HGETALL \<Longrightarrow>
      calls (trace (notify_new_concerts new w)) = calls (trace w) \<and>
      subscribers (notify_new_concerts new w) = subscribers w \<and>
      strings (notify_new_concerts new w) = strings w"
  proof -
    assume r: "raises w HGETALL"
    let ?w = "emit (Log Info (SendingNotifications (length new) (length (subscribers w)))) w"
    have "raises ?w HGETALL" using r by simp
    from foldl_send_unreachable [OF this, of new] show ?thesis
      by (simp add: notify_new_concerts_def get_subscriber_count_def)
  qed
  from count all skip hlen hgetall show ?thesis by blast
qed

theorem unreachable_registry_skips_dispatch_witness:
  "raises (sample_world [7] (\<lambda>c. c = HLEN \<or> c = HGETALL) (\<lambda>c. None)) HLEN \<and>
   raises (sample_world [7] (\<lambda>c. c = HLEN \<or> c = HGETALL) (\<lambda>c. None)) HGETALL \<and>
   [as_dict (sample_concert (str ''1'') (str ''50''))] \<noteq> [] \<and>
   fst (get_subscriber_count (sample_world [7] (\<lambda>c. c = HLEN \<or> c = HGETALL) (\<lambda>c. None))) = 0 \<and>
   fst (get_all_subscribers (sample_world [7] (\<lambda>c. c = HLEN \<or> c = HGETALL) (\<lambda>c. None))) = [] \<and>
   trace (notify_new_concerts [as_dict (sample_concert (str ''1'') (str ''50''))]
            (sample_world [7] (\<lambda>c. c = HLEN \<or> c = HGETALL) (\<lambda>c. None))) =
     [Log Error CountError, Log Info NoSubscribers] \<and>
   calls (trace (notify_new_concerts [as_dict (sample_concert (str ''1'') (str ''50''))]
            (sample_world [7] (\<lambda>c. c = HLEN \<or> c = HGETALL) (\<lambda>c. None)))) = []"
  using unreachable_registry_skips_dispatch
    [of "sample_world [7] (\<lambda>c. c = HLEN \<or> c = HGETALL) (\<lambda>c. None)"
        "[as_dict (sample_concert (str ''1'') (str ''50''))]"]
  by (simp add: sample_world_def emit_def)


section \<open>A failed fetch\<close>

text \<open>
  C6, as stated, fails: for a failed request \<open>get_concerts\<close> returns the bare empty
  list, the very value it returns for a listing with no show.
\<close>

theorem fetch_failure_is_a_bare_empty_list:
  "get_concerts sample_lib RequestException = [] \<and>
   get_concerts sample_lib (Json (ReturnShow (ManyShows []))) = [] \<and>
   get_concerts sample_lib RequestException =
     get_concerts sample_lib (Json (ReturnShow (ManyShows [])))"
  by (simp add: get_concerts_def map_filter_simps)

text \<open>
  C6, amended. When the fetch fails (\<open>get_shows_raw\<close> returns \<open>None\<close>),
  \<open>get_concerts\<close> returns the bare empty list, as for a listing with no show; the
  invocation is then the same as for such a listing, and when the cache and the notifier
  were constructed it ends early with status 200 and the body "No concerts found",
  having touched neither the store nor the registry nor the bot.
\<close>

theorem fetch_failure_same_as_empty_listing:
  "get_shows_raw http = None \<Longrightarrow>
   get_concerts lib http = [] \<and>
   get_concerts lib http = get_concerts lib (Json (ReturnShow (ManyShows []))) \<and>
   lambda_handler lib token http t1 t2 w =
     lambda_handler lib token (Json (ReturnShow (ManyShows []))) t1 t2 w \<and>
   (\<not> raises w PING \<and> token \<longrightarrow>
      lambda_handler lib token http t1 t2 w =
        (Some \<lparr>statusCode = 200, body = no_concerts_body\<rparr>,
         emit (Log Info Fetching) (emit (Log Info Connected) (emit (Log Info Initializing) w))))"
  by (simp add: get_concerts_def map_filter_simps lambda_handler_def Let_def)

theorem fetch_failure_same_as_empty_listing_witness:
  "get_shows_raw RequestException = None \<and>
   \<not> raises (sample_world [7] (\<lambda>c. False) (\<lambda>c. None)) PING \<and>
   get_concerts sample_lib RequestException = [] \<and>
   fst (lambda_handler sample_lib True RequestException [] []
          (sample_world [7] (\<lambda>c. False) (\<lambda>c. None))) =
     Some \<lparr>statusCode = 200, body = no_concerts_body\<rparr>"
proof -
  have failed: "get_shows_raw RequestException = None"
    by simp
  have ping: "\<not> raises (sample_world [7] (\<lambda>c. False) (\<lambda>c. None)) PING \<and> True"
    by (simp add: sample_world_def)
  note inst = fetch_failure_same_as_empty_listing
    [OF failed, of sample_lib True "[]" "[]" "sample_world [7] (\<lambda>c. False) (\<lambda>c. None)"]
  from inst ping have run:
    "lambda_handler sample_lib True RequestException [] []
       (sample_world [7] (\<lambda>c. False) (\<lambda>c. None)) =
     (Some \<lparr>statusCode = 200, body = no_concerts_body\<rparr>,
      emit (Log Info Fetching) (emit (Log Info Connected) (emit (Log Info Initializing)
        (sample_world [7] (\<lambda>c. False) (\<lambda>c. None)))))"
    by blast
  from inst have empty: "get_concerts sample_lib RequestException = []"
    by blast
  show ?thesis
    using failed ping empty by (simp add: run)
qed

section \<open>The rendered message\<close>

lemma py_strip_Nil [simp]: "py_strip [] = []"
  by (simp add: py_strip_def)

text \<open>
  The title line: the length is taken after \<open>strip()\<close>, before the runs of whitespace
  are collapsed. A title of two letters with two spaces between them has four characters
  then and gets its line, where it reads \<open>a b\<close>.
\<close>

lemma title_line_counts_before_normalizing:
  "title_line spaced_title = [0x1F4DD] @ str '' <i>a b</i>'' @ [0x0A] \<and>
   clean_title spaced_title = str ''a b'' \<and>
   length (clean_title spaced_title) = 3 \<and>
   display_title spaced_title \<noteq> msg_artist spaced_title"
  by (simp add: spaced_title_def title_line_def clean_title_def display_title_def msg_artist_def
      dict_get_def py_strip_def py_split_def isspace_def str_def)

text \<open>
  The pieces of the message for a dict that holds the upstream field names, as the
  repository's test script passes it:
  a missing or empty \<open>showPrice\<close> renders as \<open>TBA\<close>, and the price text is never
  empty; a date with no time renders as the date alone, and no date renders as \<open>TBA\<close>;
  the title line is there if and only if the title (the stripped \<open>showTitle\<close>, or else
  the stripped \<open>showShortTitle\<close>) differs from the stripped artist name and has more
  than 3 characters after stripping, and it then shows the title with its runs of
  whitespace collapsed; and when \<open>notbybarbtsellsoldout\<close> is \<open>1\<close> the marked
  sold-out status ends the price line.
\<close>

lemma renderer_degrades_missing_fields:
  "(dict_get concert ''showPrice'' [] = [] \<longrightarrow> price_text concert = str ''TBA'') \<and>
   price_text concert \<noteq> [] \<and>
   (dict_get concert ''showDate'' [] \<noteq> [] \<and> dict_get concert ''showTime'' [] = [] \<longrightarrow>
      datetime_str concert = dict_get concert ''showDate'' []) \<and>
   (dict_get concert ''showDate'' [] = [] \<longrightarrow> datetime_str concert = str ''TBA'') \<and>
   (title_line concert \<noteq> [] \<longleftrightarrow>
      display_title concert \<noteq> msg_artist concert \<and>
      3 < length (py_strip (display_title concert))) \<and>
   (title_line concert \<noteq> [] \<longrightarrow>
      title_line concert =
        [0x1F4DD] @ str '' <i>'' @ clean_title concert @ str ''</i>'' @ [0x0A]) \<and>
   (dict_get concert ''notbybarbtsellsoldout'' (str ''0'') = str ''1'' \<longrightarrow>
      msg_status concert = sold_out_status \<and>
      price_line concert =
        [0x1F4B0, 0x20] @ price_text concert @ seat_text concert @ sold_out_status @ [0x0A]) \<and>
   sold_out_status \<noteq> []"
proof -
  have price: "dict_get concert ''showPrice'' [] = [] \<longrightarrow> price_text concert = str ''TBA''"
    by (simp add: price_text_def)
  have nonempty: "price_text concert \<noteq> []"
    by (simp add: price_text_def Let_def str_def)
  have date_only: "dict_get concert ''showDate'' [] \<noteq> [] \<and> dict_get concert ''showTime'' [] = [] \<longrightarrow>
      datetime_str concert = dict_get concert ''showDate'' []"
    by (simp add: datetime_str_def)
  have tba: "dict_get concert ''showDate'' [] = [] \<longrightarrow> datetime_str concert = str ''TBA''"
    by (simp add: datetime_str_def)
  have title: "title_line concert \<noteq> [] \<longleftrightarrow>
      display_title concert \<noteq> msg_artist concert \<and>
      3 < length (py_strip (display_title concert))"
    by (cases "display_title concert = []") (simp_all add: title_line_def)
  have line: "title_line concert \<noteq> [] \<longrightarrow>
      title_line concert =
        [0x1F4DD] @ str '' <i>'' @ clean_title concert @ str ''</i>'' @ [0x0A]"
    by (simp add: title_line_def)
  have sold: "dict_get concert ''notbybarbtsellsoldout'' (str ''0'') = str ''1'' \<longrightarrow>
      msg_status concert = sold_out_status \<and>
      price_line concert =
        [0x1F4B0, 0x20] @ price_text concert @ seat_text concert @ sold_out_status @ [0x0A]"
    by (simp add: msg_status_def price_line_def)
  have marked: "sold_out_status \<noteq> []"
    by (simp add: sold_out_status_def)
  from price nonempty date_only tba title line sold marked show ?thesis
    by blast
qed

lemma renderer_degrades_missing_fields_witness:
  "dict_get sold_out_show ''showPrice'' [] = [] \<and>
   dict_get sold_out_show ''showDate'' [] \<noteq> [] \<and>
   dict_get sold_out_show ''showTime'' [] = [] \<and>
   dict_get sold_out_show ''notbybarbtsellsoldout'' (str ''0'') = str ''1'' \<and>
   display_title sold_out_show \<noteq> msg_artist sold_out_show \<and>
   3 < length (py_strip (display_title sold_out_show)) \<and>
   price_text sold_out_show = str ''TBA'' \<and>
   datetime_str sold_out_show = str ''20/08/2025'' \<and>
   title_line sold_out_show = [0x1F4DD] @ str '' <i>Live at Barby</i>'' @ [0x0A] \<and>
   price_line sold_out_show = [0x1F4B0, 0x20] @ str ''TBA'' @ sold_out_status @ [0x0A]"
  using renderer_degrades_missing_fields [of sold_out_show]
  by (simp add: sold_out_show_def dict_get_def display_title_def msg_artist_def py_strip_def
      isspace_def str_def clean_title_def py_split_def seat_text_def)

text \<open>
  The dicts that \<open>lambda_handler\<close> passes to the notifier are those of \<open>parse_show\<close>,
  whose keys are not the upstream field names: every \<open>.get\<close> of the renderer yields its
  default, whatever the show is, and no image is found.
\<close>

lemma as_dict_has_no_api_key:
  "as_dict c ''showName'' = None" "as_dict c ''showTitle'' = None"
  "as_dict c ''showShortTitle'' = None" "as_dict c ''showDate'' = None"
  "as_dict c ''showTime'' = None" "as_dict c ''showPrice'' = None"
  "as_dict c ''showId'' = None" "as_dict c ''showSeatType'' = None"
  "as_dict c ''notbybarbtsellsoldout'' = None" "as_dict c ''showImage'' = None"
  by (simp_all add: as_dict_def concert_items_def)

lemma parsed_parts:
  "msg_artist (as_dict c) = str ''Unknown Artist''"
  "display_title (as_dict c) = []"
  "datetime_str (as_dict c) = str ''TBA''"
  "price_text (as_dict c) = str ''TBA''"
  "seat_text (as_dict c) = []"
  "msg_status (as_dict c) = []"
  "msg_url (as_dict c) = str ''https://barby.co.il''"
  "get_concert_image_url (as_dict c) = None"
  by (simp_all add: msg_artist_def display_title_def datetime_str_def
      price_text_def seat_text_def msg_status_def msg_url_def get_concert_image_url_def
      dict_get_def as_dict_has_no_api_key py_strip_def isspace_def str_def)

lemma parsed_concert_message:
  "format_single_concert_message (as_dict c) =
     header_line @ [0x1F3B5] @ str '' <b>'' @ str ''Unknown Artist'' @ str ''</b>'' @ [0x0A] @
     [0x1F4C5, 0x20] @ str ''TBA'' @ [0x0A] @ [0x1F4B0, 0x20] @ str ''TBA'' @ [0x0A] @
     [0x1F3AB] @ str '' <a href='' @ [0x22] @ str ''https://barby.co.il'' @ [0x22] @ str ''>'' @
     [0x5E7, 0x5E0, 0x5D9, 0x5D9, 0x5EA, 0x20, 0x5DB, 0x5E8, 0x5D8, 0x5D9, 0x5E1, 0x5D9, 0x5DD] @
     str ''</a>'' @ [0x0A, 0x0A] @ footer_line"
  by (simp add: format_single_concert_message_def artist_line_def title_line_def date_line_def
      price_line_def ticket_line_def parsed_parts)


section \<open>The dispatch pass\<close>

lemma remove_subscriber_fields [simp]:
  "strings (snd (remove_subscriber uid w)) = strings w"
  "raises (snd (remove_subscriber uid w)) = raises w"
  "send (snd (remove_subscriber uid w)) = send w"
  "calls (trace (snd (remove_subscriber uid w))) = calls (trace w)"
  by (simp_all add: remove_subscriber_def)

lemma remove_subscriber_subscribers:
  "\<not> raises w HDEL \<Longrightarrow>
   subscribers (snd (remove_subscriber uid w)) = AList.delete uid (subscribers w)"
  using delete_absent_key [of uid "subscribers w"] by (simp add: remove_subscriber_def)

lemma notify_subscriber_fields [simp]:
  "strings (notify_subscriber m img w s) = strings w"
  "raises (notify_subscriber m img w s) = raises w"
  "send (notify_subscriber m img w s) = send w"
  by (simp_all add: notify_subscriber_def Let_def split: option.splits)

lemma notify_subscriber_calls:
  "calls (trace (notify_subscriber m img w s)) =
   calls (trace w) @ delivery_attempts m img (send w) (user_id s)"
  by (simp add: notify_subscriber_def delivery_attempts_def Let_def split: option.splits)

lemma notify_subscriber_subscribers:
  "\<not> raises w HDEL \<Longrightarrow>
   subscribers (notify_subscriber m img w s) =
     (if permanently_failed m img (send w) (user_id s)
      then AList.delete (user_id s) (subscribers w) else subscribers w)"
  by (simp add: notify_subscriber_def permanently_failed_def Let_def remove_subscriber_subscribers
      split: option.splits)

lemma notify_subscriber_keeps:
  "\<not> permanently_failed m img (send w) (user_id s) \<Longrightarrow>
   subscribers (notify_subscriber m img w s) = subscribers w"
  by (cases "send w (first_call m img (user_id s))")
    (simp_all add: notify_subscriber_def permanently_failed_def Let_def split: option.splits)

lemma notify_subscriber_photo_retry:
  "send w (SendPhoto (user_id sub) u message) = Some e \<Longrightarrow> u \<noteq> [] \<Longrightarrow> is_photo_error e \<Longrightarrow>
   calls (trace (notify_subscriber message (Some u) w sub)) =
     calls (trace w) @ [SendPhoto (user_id sub) u message, SendMessage (user_id sub) message] \<and>
   (\<not> is_invalid_subscriber_error e \<longrightarrow>
      subscribers (notify_subscriber message (Some u) w sub) = subscribers w)"
  by (simp add: notify_subscriber_def first_call_def truthy_def Let_def split: option.splits)

lemma foldl_notify_fields:
  "strings (foldl (notify_subscriber m img) w subs) = strings w \<and>
   raises (foldl (notify_subscriber m img) w subs) = raises w \<and>
   send (foldl (notify_subscriber m img) w subs) = send w \<and>
   calls (trace (foldl (notify_subscriber m img) w subs)) =
     calls (trace w) @ concat (map (\<lambda>s. delivery_attempts m img (send w) (user_id s)) subs)"
proof (induction subs arbitrary: w)
  case Nil
  then show ?case by simp
next
  case (Cons s subs)
  show ?case
    using Cons.IH [of "notify_subscriber m img w s"]
    by (simp add: notify_subscriber_calls)
qed

lemma foldl_notify_subscribers:
  "\<not> raises w HDEL \<Longrightarrow>
   subscribers (foldl (notify_subscriber m img) w subs) =
     filter (\<lambda>(k, v). k \<notin> user_id ` {s \<in> set subs. permanently_failed m img (send w) (user_id s)})
       (subscribers w)"
proof (induction subs arbitrary: w)
  case Nil
  then show ?case by simp
next
  case (Cons s subs)
  let ?w = "notify_subscriber m img w s"
  have up: "\<not> raises ?w HDEL"
    using Cons.prems by simp
  have step: "subscribers ?w =
      (if permanently_failed m img (send w) (user_id s)
       then AList.delete (user_id s) (subscribers w) else subscribers w)"
    using Cons.prems by (rule notify_subscriber_subscribers)
  show ?case
    using Cons.IH [OF up]
    by (auto simp add: step AList.delete_eq intro!: filter_cong)
qed

lemma registry_ok_filter:
  "registry_ok al \<Longrightarrow>
   filter (\<lambda>(k, v). k \<notin> user_id ` {s \<in> set (map snd al). P (user_id s)}) al =
   filter (\<lambda>(k, v). \<not> P k) al"
  by (rule filter_cong) (force simp add: registry_ok_def)+

lemma registry_ok_attempts:
  "registry_ok al \<Longrightarrow>
   map (\<lambda>s. f (user_id s)) (map snd al) = map (\<lambda>(k, s). f k) al"
  by (auto simp add: registry_ok_def)

lemma registry_ok_filtered: "registry_ok al \<Longrightarrow> registry_ok (filter P al)"
  by (auto simp add: registry_ok_def distinct_map_filter)

text \<open>The registry stays well formed under the cache's own operations.\<close>

lemma update_entries: "(k', v') \<in> set (AList.update k v al) \<Longrightarrow> (k', v') = (k, v) \<or> (k', v') \<in> set al"
  by (induction al) (auto split: if_splits)

lemma add_subscriber_registry_ok:
  "registry_ok (subscribers w) \<Longrightarrow> registry_ok (subscribers (add_subscriber now uid uname fname w))"
  by (auto simp add: add_subscriber_def registry_ok_def distinct_update dest!: update_entries)

lemma remove_subscriber_registry_ok:
  "registry_ok (subscribers w) \<Longrightarrow> registry_ok (subscribers (snd (remove_subscriber uid w)))"
  using registry_ok_filtered [of "subscribers w" "\<lambda>(k', v). uid \<noteq> k'"]
  by (simp add: remove_subscriber_def AList.delete_eq)

lemma sample_world_registry_ok:
  "distinct uids \<Longrightarrow> registry_ok (subscribers (sample_world uids r s))"
  by (auto simp add: sample_world_def registry_ok_def sample_subscriber_def distinct_map comp_def inj_on_def)

lemma send_concert_notification_fields [simp]:
  "strings (send_concert_notification w c) = strings w"
  "raises (send_concert_notification w c) = raises w"
  "send (send_concert_notification w c) = send w"
  by (simp_all add: send_concert_notification_def get_all_subscribers_def foldl_notify_fields)

lemma pass_calls:
  "\<not> raises w HGETALL \<Longrightarrow> registry_ok (subscribers w) \<Longrightarrow>
   calls (trace (send_concert_notification w c)) =
     calls (trace w) @
     concat (map (\<lambda>(k, s). delivery_attempts (format_single_concert_message c)
                            (get_concert_image_url c) (send w) k) (subscribers w))"
  using registry_ok_attempts [of "subscribers w"
      "delivery_attempts (format_single_concert_message c) (get_concert_image_url c) (send w)"]
  by (simp add: send_concert_notification_def get_all_subscribers_def foldl_notify_fields
      del: map_map)

lemma pass_subscribers:
  "\<not> raises w HGETALL \<Longrightarrow> \<not> raises w HDEL \<Longrightarrow> registry_ok (subscribers w) \<Longrightarrow>
   subscribers (send_concert_notification w c) =
     filter (\<lambda>(k, s). \<not> permanently_failed (format_single_concert_message c)
                         (get_concert_image_url c) (send w) k) (subscribers w)"
  using registry_ok_filter [of "subscribers w"
      "permanently_failed (format_single_concert_message c) (get_concert_image_url c) (send w)"]
  by (simp add: send_concert_notification_def get_all_subscribers_def foldl_notify_subscribers)

lemma dispatch_calls_fold:
  "\<not> raises w HGETALL \<Longrightarrow> \<not> raises w HDEL \<Longrightarrow> registry_ok (subscribers w) \<Longrightarrow>
   calls (trace (foldl send_concert_notification w new)) =
     calls (trace w) @ dispatch_calls (send w) (subscribers w) new"
proof (induction new arbitrary: w)
  case Nil
  then show ?case by simp
next
  case (Cons c new)
  let ?w = "send_concert_notification w c"
  have a: "\<not> raises ?w HGETALL" and b: "\<not> raises ?w HDEL"
    using Cons.prems by simp_all
  have subs: "subscribers ?w =
      filter (\<lambda>(k, s). \<not> permanently_failed (format_single_concert_message c)
                          (get_concert_image_url c) (send w) k) (subscribers w)"
    using Cons.prems by (rule pass_subscribers)
  have ok: "registry_ok (subscribers ?w)"
    using Cons.prems(3) by (simp add: subs registry_ok_filtered)
  show ?case
    using Cons.IH [OF a b ok] pass_calls [OF Cons.prems(1) Cons.prems(3), of c]
    by (simp add: subs Let_def)
qed

lemma dispatch_calls_no_subscribers [simp]: "dispatch_calls snd_fn [] new = []"
  by (induction new) simp_all

lemma sample_errors:
  "is_invalid_subscriber_error blocked_error" "\<not> is_photo_error blocked_error"
  "is_photo_error photo_error" "\<not> is_invalid_subscriber_error photo_error"
  by (simp_all add: is_invalid_subscriber_error_def is_photo_error_def blocked_error_def
      photo_error_def py_lower_def lower_cp_def str_def)

lemma sample_images:
  "get_concert_image_url sold_out_show = None"
  "get_concert_image_url image_show = Some (str ''https://images.barby.co.il/Logos/x.jpg'')"
  by (simp_all add: get_concert_image_url_def dict_get_def sold_out_show_def image_show_def
      py_strip_def isspace_def str_def)

lemma image_url_nonempty: "get_concert_image_url c = Some u \<Longrightarrow> u \<noteq> []"
  by (auto simp add: get_concert_image_url_def Let_def str_def split: if_splits)

lemma one_first_call:
  "length (filter (\<lambda>c. c = first_call m img uid) (delivery_attempts m img snd_fn uid)) = 1"
  by (auto simp add: delivery_attempts_def first_call_def truthy_def Let_def
      split: option.splits)

lemma notify_new_concerts_calls:
  assumes "\<not> raises w HGETALL" "\<not> raises w HDEL" "\<not> raises w HLEN" "registry_ok (subscribers w)"
  shows "calls (trace (notify_new_concerts new w)) =
         calls (trace w) @ dispatch_calls (send w) (subscribers w) new"
proof (cases "new = [] \<or> subscribers w = []")
  case True
  then show ?thesis
    using assms(3) by (auto simp add: notify_new_concerts_def get_subscriber_count_def)
next
  case False
  let ?w = "emit (Log Info (SendingNotifications (length new) (length (subscribers w)))) w"
  have "calls (trace (foldl send_concert_notification ?w new)) =
        calls (trace ?w) @ dispatch_calls (send ?w) (subscribers ?w) new"
    using assms by (intro dispatch_calls_fold) simp_all
  then show ?thesis
    using False assms(3) by (simp add: notify_new_concerts_def get_subscriber_count_def)
qed

text \<open>
  C4, amended. In a dispatch pass whose registry calls do not raise, over a registry
  with one entry per user: the calls of the pass for one item are, subscriber after
  subscriber in registry order, each subscriber's own attempts, which hold the first call
  exactly once and depend on no other subscriber's outcome; after the pass the registry
  holds exactly the subscribers whose first call did not fail with a permanent-failure
  phrase (matched in the lower-cased error text), the others as they were; and the calls
  of the whole dispatch are those of \<open>dispatch_calls\<close>: every item is delivered, in
  order, to every subscriber still registered, whatever failed before.
\<close>

theorem permanent_failure_removes_only_that_subscriber:
  assumes "\<not> raises w HGETALL" "\<not> raises w HDEL" "\<not> raises w HLEN"
    and "registry_ok (subscribers w)"
  shows
    "calls (trace (send_concert_notification w concert)) =
       calls (trace w) @
       concat (map (\<lambda>(k, s). delivery_attempts (format_single_concert_message concert)
                              (get_concert_image_url concert) (send w) k) (subscribers w)) \<and>
     subscribers (send_concert_notification w concert) =
       filter (\<lambda>(k, s). \<not> permanently_failed (format_single_concert_message concert)
                           (get_concert_image_url concert) (send w) k) (subscribers w) \<and>
     calls (trace (notify_new_concerts new w)) =
       calls (trace w) @ dispatch_calls (send w) (subscribers w) new \<and>
     (\<forall>uid. length (filter (\<lambda>c. c = first_call (format_single_concert_message concert)
                                          (get_concert_image_url concert) uid)
                         (delivery_attempts (format_single_concert_message concert)
                            (get_concert_image_url concert) (send w) uid)) = 1)"
  using pass_calls [OF assms(1) assms(4), of concert]
    pass_subscribers [OF assms(1) assms(2) assms(4), of concert]
    notify_new_concerts_calls [OF assms, of new]
    one_first_call
  by simp

text \<open>
  The instance of the specification's test: three subscribers, the second has blocked
  the bot. Each gets one call for the item, the second is removed, and a second item
  goes to the first and the third.
\<close>

theorem permanent_failure_removes_only_that_subscriber_witness:
  "\<not> raises (sample_world [1, 2, 3] (\<lambda>c. False) blocks_second) HGETALL \<and>
   \<not> raises (sample_world [1, 2, 3] (\<lambda>c. False) blocks_second) HDEL \<and>
   \<not> raises (sample_world [1, 2, 3] (\<lambda>c. False) blocks_second) HLEN \<and>
   registry_ok (subscribers (sample_world [1, 2, 3] (\<lambda>c. False) blocks_second)) \<and>
   calls (trace (send_concert_notification
                   (sample_world [1, 2, 3] (\<lambda>c. False) blocks_second) sold_out_show)) =
     [SendMessage 1 (format_single_concert_message sold_out_show),
      SendMessage 2 (format_single_concert_message sold_out_show),
      SendMessage 3 (format_single_concert_message sold_out_show)] \<and>
   subscribers (send_concert_notification
                  (sample_world [1, 2, 3] (\<lambda>c. False) blocks_second) sold_out_show) =
     [(1, sample_subscriber 1), (3, sample_subscriber 3)] \<and>
   calls (trace (notify_new_concerts [sold_out_show, sold_out_show]
                   (sample_world [1, 2, 3] (\<lambda>c. False) blocks_second))) =
     [SendMessage 1 (format_single_concert_message sold_out_show),
      SendMessage 2 (format_single_concert_message sold_out_show),
      SendMessage 3 (format_single_concert_message sold_out_show),
      SendMessage 1 (format_single_concert_message sold_out_show),
      SendMessage 3 (format_single_concert_message sold_out_show)]"
  using permanent_failure_removes_only_that_subscriber
    [of "sample_world [1, 2, 3] (\<lambda>c. False) blocks_second" sold_out_show
        "[sold_out_show, sold_out_show]"]
  by (simp add: sample_world_def sample_subscriber_def registry_ok_def sample_images
      delivery_attempts_def permanently_failed_def first_call_def blocks_second_def
      sample_errors truthy_def Let_def)

text \<open>
  C4, as stated, fails for the text retry: its exception is dropped by \<open>except: pass\<close>
  and only the error of the first call is tested. Here the photo fails with a photo
  error, the text retry fails with "bot was blocked", and the subscriber stays.
\<close>

theorem blocked_fallback_keeps_subscriber:
  "send (sample_world [7] (\<lambda>c. False) photo_then_blocked)
     (SendMessage 7 (format_single_concert_message image_show)) = Some blocked_error \<and>
   is_invalid_subscriber_error blocked_error \<and>
   calls (trace (send_concert_notification
                   (sample_world [7] (\<lambda>c. False) photo_then_blocked) image_show)) =
     [SendPhoto 7 (str ''https://images.barby.co.il/Logos/x.jpg'')
        (format_single_concert_message image_show),
      SendMessage 7 (format_single_concert_message image_show)] \<and>
   subscribers (send_concert_notification
                  (sample_world [7] (\<lambda>c. False) photo_then_blocked) image_show) =
     [(7, sample_subscriber 7)]"
  by (simp add: sample_world_def send_concert_notification_def get_all_subscribers_def
      sample_images notify_subscriber_def first_call_def photo_then_blocked_def sample_errors
      truthy_def sample_subscriber_def emit_def str_def Let_def)

lemma attempts_chat_id:
  "c \<in> set (delivery_attempts m img snd_fn uid) \<Longrightarrow> chat_id c = uid"
  by (auto simp add: delivery_attempts_def first_call_def Let_def split: option.splits if_splits)

lemma filter_concat_one:
  "distinct (map fst al) \<Longrightarrow> (k, v) \<in> set al \<Longrightarrow>
   (\<And>k' c. c \<in> set (f k') \<Longrightarrow> g c = k') \<Longrightarrow>
   filter (\<lambda>c. g c = k) (concat (map (\<lambda>(k', s). f k') al)) = f k"
proof (induction al)
  case Nil
  then show ?case by simp
next
  case (Cons a al)
  obtain k' s where a: "a = (k', s)" by (cases a)
  have all: "filter (\<lambda>c. g c = k) (f k) = f k"
    using Cons.prems(3) by (simp add: filter_id_conv)
  have none: "j \<noteq> k \<Longrightarrow> filter (\<lambda>c. g c = k) (f j) = []" for j
    using Cons.prems(3) by (auto simp add: filter_empty_conv)
  have rest_none: "k \<notin> set (map fst xs) \<Longrightarrow>
      filter (\<lambda>c. g c = k) (concat (map (\<lambda>(k', s). f k') xs)) = []" for xs
    using Cons.prems(3) by (induction xs) (auto simp add: filter_empty_conv)
  show ?case
  proof (cases "k' = k")
    case True
    then have "k \<notin> set (map fst al)"
      using Cons.prems(1) a by simp
    then show ?thesis
      using True a all rest_none by simp
  next
    case False
    then have "(k, v) \<in> set al"
      using Cons.prems(2) a by auto
    then show ?thesis
      using Cons.IH Cons.prems(1) Cons.prems(3) False a none by simp
  qed
qed

lemma notify_subscriber_no_hdel:
  "raises w HDEL \<Longrightarrow> subscribers (notify_subscriber m img w s) = subscribers w"
  by (simp add: notify_subscriber_def remove_subscriber_def Let_def split: option.splits)

lemma foldl_notify_no_hdel:
  "raises w HDEL \<Longrightarrow> subscribers (foldl (notify_subscriber m img) w subs) = subscribers w"
proof (induction subs arbitrary: w)
  case Nil
  then show ?case by simp
next
  case (Cons s subs)
  have "raises (notify_subscriber m img w s) HDEL"
    using Cons.prems by simp
  from Cons.IH [OF this] show ?case
    using Cons.prems by (simp add: notify_subscriber_no_hdel)
qed

lemma pass_keeps_subscriber:
  assumes "\<not> raises w HGETALL" "registry_ok (subscribers w)" "(k, sub) \<in> set (subscribers w)"
    and "\<not> permanently_failed (format_single_concert_message c) (get_concert_image_url c)
             (send w) k"
  shows "(k, sub) \<in> set (subscribers (send_concert_notification w c))"
proof (cases "raises w HDEL")
  case True
  then show ?thesis
    using assms(1) assms(3)
    by (simp add: send_concert_notification_def get_all_subscribers_def foldl_notify_no_hdel)
next
  case False
  then show ?thesis
    using pass_subscribers [OF assms(1) False assms(2), of c] assms(3) assms(4) by simp
qed

text \<open>
  C5. In a dispatch pass over a registry with one entry per user, for a subscriber
  whose photo call fails with an error that mentions a photo: the calls of the pass to
  that subscriber are the photo call and one text call after it, whether the text call
  fails or not; and when the error names no invalid subscriber, the subscriber is still
  in the registry after the pass.
\<close>

theorem photo_failure_gets_one_text_retry:
  assumes "\<not> raises w HGETALL" "registry_ok (subscribers w)" "(k, sub) \<in> set (subscribers w)"
    and "get_concert_image_url concert = Some u"
    and "send w (SendPhoto k u (format_single_concert_message concert)) = Some e"
    and "is_photo_error e"
  shows
    "filter (\<lambda>c. chat_id c = k) (calls (trace (send_concert_notification w concert))) =
       filter (\<lambda>c. chat_id c = k) (calls (trace w)) @
       [SendPhoto k u (format_single_concert_message concert),
        SendMessage k (format_single_concert_message concert)] \<and>
     (\<not> is_invalid_subscriber_error e \<longrightarrow>
        (k, sub) \<in> set (subscribers (send_concert_notification w concert)))"
proof -
  let ?m = "format_single_concert_message concert"
  have u: "u \<noteq> []"
    using assms(4) by (rule image_url_nonempty)
  have first: "first_call ?m (Some u) k = SendPhoto k u ?m"
    using u by (simp add: first_call_def)
  have mine: "delivery_attempts ?m (Some u) (send w) k = [SendPhoto k u ?m, SendMessage k ?m]"
    using assms(5) assms(6) u by (simp add: delivery_attempts_def first truthy_def)
  have "filter (\<lambda>c. chat_id c = k)
          (concat (map (\<lambda>(k', s). delivery_attempts ?m (Some u) (send w) k') (subscribers w))) =
        delivery_attempts ?m (Some u) (send w) k"
    using assms(2) assms(3) by (intro filter_concat_one) (auto simp add: registry_ok_def attempts_chat_id)
  then have calls: "filter (\<lambda>c. chat_id c = k) (calls (trace (send_concert_notification w concert))) =
       filter (\<lambda>c. chat_id c = k) (calls (trace w)) @ [SendPhoto k u ?m, SendMessage k ?m]"
    using pass_calls [OF assms(1) assms(2), of concert] by (simp add: assms(4) mine)
  have kept: "\<not> is_invalid_subscriber_error e \<Longrightarrow>
       (k, sub) \<in> set (subscribers (send_concert_notification w concert))"
    using assms(5)
    by (intro pass_keeps_subscriber [OF assms(1) assms(2) assms(3)])
       (simp add: permanently_failed_def assms(4) first)
  from calls kept show ?thesis by blast
qed

theorem photo_failure_gets_one_text_retry_witness:
  "\<not> raises (sample_world [5, 7] (\<lambda>c. False) photo_fails) HGETALL \<and>
   registry_ok (subscribers (sample_world [5, 7] (\<lambda>c. False) photo_fails)) \<and>
   (7, sample_subscriber 7) \<in> set (subscribers (sample_world [5, 7] (\<lambda>c. False) photo_fails)) \<and>
   get_concert_image_url image_show = Some (str ''https://images.barby.co.il/Logos/x.jpg'') \<and>
   send (sample_world [5, 7] (\<lambda>c. False) photo_fails)
     (SendPhoto 7 (str ''https://images.barby.co.il/Logos/x.jpg'')
        (format_single_concert_message image_show)) = Some photo_error \<and>
   is_photo_error photo_error \<and> \<not> is_invalid_subscriber_error photo_error \<and>
   filter (\<lambda>c. chat_id c = 7)
     (calls (trace (send_concert_notification
                      (sample_world [5, 7] (\<lambda>c. False) photo_fails) image_show))) =
     [SendPhoto 7 (str ''https://images.barby.co.il/Logos/x.jpg'')
        (format_single_concert_message image_show),
      SendMessage 7 (format_single_concert_message image_show)] \<and>
   (7, sample_subscriber 7) \<in>
     set (subscribers (send_concert_notification
                         (sample_world [5, 7] (\<lambda>c. False) photo_fails) image_show))"
proof -
  let ?w = "sample_world [5, 7] (\<lambda>c. False) photo_fails"
  let ?u = "str ''https://images.barby.co.il/Logos/x.jpg''"
  have a: "\<not> raises ?w HGETALL"
    by (simp add: sample_world_def)
  have b: "registry_ok (subscribers ?w)"
    by (simp add: sample_world_def registry_ok_def sample_subscriber_def)
  have c: "(7, sample_subscriber 7) \<in> set (subscribers ?w)"
    by (simp add: sample_world_def)
  have d: "get_concert_image_url image_show = Some ?u"
    by (rule sample_images)
  have e: "send ?w (SendPhoto 7 ?u (format_single_concert_message image_show)) = Some photo_error"
    by (simp add: sample_world_def photo_fails_def)
  have f: "is_photo_error photo_error" and g: "\<not> is_invalid_subscriber_error photo_error"
    by (rule sample_errors)+
  have empty: "calls (trace ?w) = []"
    by (simp add: sample_world_def)
  from photo_failure_gets_one_text_retry [OF a b c d e f] g empty a b c d e f
  show ?thesis by simp
qed


section \<open>The invocation\<close>

lemma load_last_state_emit [simp]:
  "fst (load_last_state (emit e w)) = fst (load_last_state w)"
  by (simp add: load_last_state_def concert_keys_def Let_def)

lemma load_last_state_fields [simp]:
  "strings (snd (load_last_state w)) = strings w"
  "subscribers (snd (load_last_state w)) = subscribers w"
  "raises (snd (load_last_state w)) = raises w"
  "send (snd (load_last_state w)) = send w"
  "calls (trace (snd (load_last_state w))) = calls (trace w)"
  by (simp_all add: load_last_state_def Let_def split: option.splits)

lemma before_save_fields [simp]:
  "strings (before_save n w) = strings w"
  "subscribers (before_save n w) = subscribers w"
  "raises (before_save n w) = raises w"
  "send (before_save n w) = send w"
  "calls (trace (before_save n w)) = calls (trace w)"
  by (simp_all add: before_save_def)

lemma detected_nonempty_fetch: "detected lib http w \<noteq> [] \<Longrightarrow> get_concerts lib http \<noteq> []"
  by (auto simp add: detected_def new_concerts_def current_concerts_def)

lemma lambda_handler_persist:
  assumes "\<not> raises w PING" "token" "detected lib http w \<noteq> []"
  shows "lambda_handler lib token http t1 t2 w =
     (Some \<lparr>statusCode = 200, body = success_body\<rparr>,
      notify_new_concerts (map as_dict (detected lib http w))
        (save_state t1 t2 (current_concerts (get_concerts lib http))
           (before_save (length (detected lib http w)) w)))"
  using assms detected_nonempty_fetch [OF assms(3)]
  by (simp add: lambda_handler_def Let_def case_prod_beta detected_def before_save_def)

lemma lambda_handler_no_change:
  assumes "\<not> raises w PING" "token" "get_concerts lib http \<noteq> []" "detected lib http w = []"
  shows "lambda_handler lib token http t1 t2 w =
     (Some \<lparr>statusCode = 200, body = success_body\<rparr>,
      emit (Log Info NoChanges)
        (snd (load_last_state
          (emit (Log Info Loading) (emit (Log Info Fetching) (emit (Log Info Connected)
             (emit (Log Info Initializing) w)))))))"
  using assms
  by (simp add: lambda_handler_def Let_def case_prod_beta detected_def)

lemma foldl_send_fields:
  "strings (foldl send_concert_notification w new) = strings w \<and>
   raises (foldl send_concert_notification w new) = raises w \<and>
   send (foldl send_concert_notification w new) = send w"
  by (induction new arbitrary: w) simp_all

lemma notify_new_concerts_fields [simp]:
  "strings (notify_new_concerts new w) = strings w"
  "raises (notify_new_concerts new w) = raises w"
  "send (notify_new_concerts new w) = send w"
  by (simp_all add: notify_new_concerts_def get_subscriber_count_def foldl_send_fields Let_def)

lemma save_state_failed:
  "raises w KEYS \<or> raises w EXEC \<Longrightarrow>
   save_state t1 t2 concerts w = emit (Log Error SaveError) w"
  by (simp add: save_state_def)

lemma save_failure_run:
  assumes "\<not> raises w PING" "token" "detected lib http w \<noteq> []"
    and "raises w KEYS \<or> raises w EXEC"
  shows
    "save_state t1 t2 (current_concerts (get_concerts lib http))
       (before_save (length (detected lib http w)) w) =
       emit (Log Error SaveError) (before_save (length (detected lib http w)) w) \<and>
     lambda_handler lib token http t1 t2 w =
       (Some \<lparr>statusCode = 200, body = success_body\<rparr>,
        notify_new_concerts (map as_dict (detected lib http w))
          (emit (Log Error SaveError) (before_save (length (detected lib http w)) w))) \<and>
     strings (snd (lambda_handler lib token http t1 t2 w)) = strings w"
proof -
  let ?b = "before_save (length (detected lib http w)) w"
  have failed: "save_state t1 t2 (current_concerts (get_concerts lib http)) ?b =
      emit (Log Error SaveError) ?b"
    using assms(4) by (intro save_state_failed) simp
  have run: "lambda_handler lib token http t1 t2 w =
      (Some \<lparr>statusCode = 200, body = success_body\<rparr>,
       notify_new_concerts (map as_dict (detected lib http w)) (emit (Log Error SaveError) ?b))"
    using lambda_handler_persist [OF assms(1) assms(2) assms(3), of t1 t2] by (simp add: failed)
  have store: "strings (snd (lambda_handler lib token http t1 t2 w)) = strings w"
    by (simp add: run)
  from failed run store show ?thesis by blast
qed

text \<open>
  C2, amended. When the snapshot save fails (\<open>keys\<close> or \<open>pipe.execute()\<close> raises) in
  an invocation that found new concerts, \<open>save_state\<close> logs the error and returns; the
  invocation goes on to dispatch the notifications in a world whose store holds the old
  snapshot, and returns status 200 with the body "Success!", the result of a successful
  invocation. The store is unchanged at the end.
\<close>

theorem save_failure_is_swallowed:
  assumes "\<not> raises w PING" "token" "detected lib http w \<noteq> []"
    and "raises w KEYS \<or> raises w EXEC"
  shows
    "save_state t1 t2 (current_concerts (get_concerts lib http))
       (before_save (length (detected lib http w)) w) =
       emit (Log Error SaveError) (before_save (length (detected lib http w)) w) \<and>
     lambda_handler lib token http t1 t2 w =
       (Some \<lparr>statusCode = 200, body = success_body\<rparr>,
        notify_new_concerts (map as_dict (detected lib http w))
          (emit (Log Error SaveError) (before_save (length (detected lib http w)) w))) \<and>
     strings (snd (lambda_handler lib token http t1 t2 w)) = strings w"
  using assms by (rule save_failure_run)

lemma keys_foldl_update_gen:
  "set (map fst (foldl (\<lambda>kv x. AList.update (kf x) (vf x) kv) acc xs)) =
   set (map fst acc) \<union> kf ` set xs"
proof (induction xs arbitrary: acc)
  case Nil
  then show ?case by simp
next
  case (Cons x xs)
  have "set (map fst (AList.update (kf x) (vf x) acc)) = insert (kf x) (set (map fst acc))"
    using dom_update [of "kf x" "vf x" acc] by (simp add: dom_map_of_conv_image_fst)
  then show ?case using Cons.IH [of "AList.update (kf x) (vf x) acc"] by auto
qed

lemma keys_update: "set (map fst (AList.update k v al)) = insert k (set (map fst al))"
  using dom_update [of k v al] by (simp add: dom_map_of_conv_image_fst)

lemma startswith_append [simp]: "startswith p (p @ s)"
  by (induction p) simp_all

lemma last_segment_concert_key:
  "0x3A \<notin> set concert_id \<Longrightarrow> last_segment (get_concert_key concert_id) = concert_id"
proof -
  assume no_colon: "0x3A \<notin> set concert_id"
  have all: "\<forall>c \<in> set (rev concert_id). c \<noteq> 0x3A"
    using no_colon by auto
  have stop: "takeWhile (\<lambda>c. c \<noteq> 0x3A) (rev (str ''barby:concert:'')) = []"
    by (simp add: str_def)
  have "takeWhile (\<lambda>c. c \<noteq> 0x3A) (rev concert_id @ rev (str ''barby:concert:'')) =
        rev concert_id @ takeWhile (\<lambda>c. c \<noteq> 0x3A) (rev (str ''barby:concert:''))"
    using all by (intro takeWhile_append2) simp
  then show ?thesis
    by (simp add: last_segment_def get_concert_key_def stop)
qed

text \<open>
  A \<open>show_id\<close> with a colon does not come back from the key: \<open>split(":")[-1]\<close> keeps
  what follows its last colon.
\<close>

lemma last_segment_with_colon:
  "last_segment (get_concert_key (str ''12:34'')) = str ''34''"
  by (simp add: last_segment_def get_concert_key_def str_def)

lemma saved_keys:
  assumes "\<not> raises w KEYS" "\<not> raises w EXEC" "concert_id \<in> set (map fst concerts)"
  shows "get_concert_key concert_id \<in> set (concert_keys (save_state t1 t2 concerts w))"
proof -
  let ?kf = "\<lambda>x. get_concert_key (fst x)"
  let ?vf = "\<lambda>x. ConcertJson ((snd x)\<lparr>raw_data := Map.empty\<rparr>)"
  let ?cleared = "filter (\<lambda>(k, v). k \<notin> set (concert_keys w)) (strings w)"
  have stored: "strings (save_state t1 t2 concerts w) =
      AList.update get_metadata_key
        (MetadataJson \<lparr>last_check = t1, total_concerts = length concerts, updated_at = t2\<rparr>)
        (foldl (\<lambda>kv x. AList.update (?kf x) (?vf x) kv) ?cleared concerts)"
    using assms(1) assms(2) by (simp add: save_state_def Let_def case_prod_unfold)
  have "get_concert_key concert_id \<in> ?kf ` set concerts"
    using assms(3) by auto
  then have "get_concert_key concert_id \<in> set (map fst (strings (save_state t1 t2 concerts w)))"
    by (simp only: stored keys_update keys_foldl_update_gen) blast
  then show ?thesis
    by (simp add: concert_keys_def get_concert_key_def)
qed

lemma loaded_keys_gen:
  "set (map fst (foldl (\<lambda>d key. case map_of kv key of
                                    Some data \<Rightarrow> AList.update (last_segment key) data d
                                  | None \<Rightarrow> d) acc ks)) =
   set (map fst acc) \<union> last_segment ` {k \<in> set ks. map_of kv k \<noteq> None}"
proof (induction ks arbitrary: acc)
  case Nil
  then show ?case by simp
next
  case (Cons k ks)
  show ?case
  proof (cases "map_of kv k")
    case None
    then show ?thesis using Cons.IH [of acc] by auto
  next
    case (Some data)
    have split: "{j \<in> set (k # ks). map_of kv j \<noteq> None} =
        insert k {j \<in> set ks. map_of kv j \<noteq> None}"
      using Some by auto
    have "set (map fst (foldl (\<lambda>d key. case map_of kv key of
                                    Some data \<Rightarrow> AList.update (last_segment key) data d
                                  | None \<Rightarrow> d) (AList.update (last_segment k) data acc) ks)) =
          insert (last_segment k) (set (map fst acc)) \<union>
          last_segment ` {j \<in> set ks. map_of kv j \<noteq> None}"
      using Cons.IH [of "AList.update (last_segment k) data acc"]
      by (simp only: keys_update)
    then show ?thesis
      using Some by (simp only: split foldl_Cons option.case image_insert) blast
  qed
qed

lemma loaded_keys:
  assumes "\<not> raises w KEYS" "\<not> raises w GET"
  shows "set (map fst (fst (fst (load_last_state w)))) = last_segment ` set (concert_keys w)"
proof -
  have found: "k \<in> set (concert_keys w) \<Longrightarrow> map_of (strings w) k \<noteq> None" for k
    by (auto simp add: concert_keys_def map_of_eq_None_iff)
  have "{k \<in> set (concert_keys w). map_of (strings w) k \<noteq> None} = set (concert_keys w)"
    using found by auto
  then show ?thesis
    using assms loaded_keys_gen [of "strings w" "[]" "concert_keys w"]
    by (simp add: load_last_state_def Let_def)
qed

lemma rerun_detects_nothing:
  assumes "\<not> raises w KEYS" "\<not> raises w EXEC" "\<not> raises w GET"
    and "\<forall>c \<in> set concerts. 0x3A \<notin> set (show_id c)"
    and "strings w2 = strings (save_state t1 t2 (current_concerts concerts) w)"
    and "raises w2 = raises w"
  shows "new_concerts (current_concerts concerts) (fst (fst (load_last_state w2))) = []"
proof -
  let ?saved = "save_state t1 t2 (current_concerts concerts) w"
  have same_keys: "concert_keys w2 = concert_keys ?saved"
    using assms(5) by (simp add: concert_keys_def)
  have loaded: "set (map fst (fst (fst (load_last_state w2)))) = last_segment ` set (concert_keys ?saved)"
    using loaded_keys [of w2] assms(1) assms(3) assms(6) by (simp add: same_keys)
  have "concert_id \<in> set (map fst (fst (fst (load_last_state w2))))"
    if "concert_id \<in> set (map fst (current_concerts concerts))" for concert_id
  proof -
    have "concert_id \<in> set (map show_id concerts)"
      using that by (simp only: keys_current_concerts)
    then have "0x3A \<notin> set concert_id"
      using assms(4) by auto
    then have "last_segment (get_concert_key concert_id) = concert_id"
      by (rule last_segment_concert_key)
    moreover have "get_concert_key concert_id \<in> set (concert_keys ?saved)"
      using assms(1) assms(2) that by (rule saved_keys)
    ultimately show ?thesis
      unfolding loaded by (metis image_eqI)
  qed
  then have "\<forall>x \<in> set (current_concerts concerts).
      fst x \<in> set (map fst (fst (fst (load_last_state w2))))"
    by simp
  then show ?thesis
    by (simp add: new_concerts_def filter_empty_conv case_prod_beta)
qed

lemma remove_subscriber_trace:
  "\<exists>post. trace (snd (remove_subscriber uid w)) = trace w @ post"
  by (simp add: remove_subscriber_def)

lemma notify_subscriber_trace:
  "\<exists>post. trace (notify_subscriber m img w s) = trace w @ post"
  by (auto simp add: notify_subscriber_def Let_def remove_subscriber_def split: option.splits)

lemma foldl_notify_trace:
  "\<exists>post. trace (foldl (notify_subscriber m img) w subs) = trace w @ post"
proof (induction subs arbitrary: w)
  case Nil
  then show ?case by simp
next
  case (Cons s subs)
  obtain p1 where p1: "trace (notify_subscriber m img w s) = trace w @ p1"
    using notify_subscriber_trace by blast
  obtain p2 where "trace (foldl (notify_subscriber m img) (notify_subscriber m img w s) subs) =
      trace (notify_subscriber m img w s) @ p2"
    using Cons.IH by blast
  then show ?case by (simp add: p1)
qed

lemma send_concert_notification_trace:
  "\<exists>post. trace (send_concert_notification w c) = trace w @ post"
proof (cases "raises w HGETALL")
  case True
  then show ?thesis by (simp add: send_concert_notification_unreachable)
next
  case False
  then show ?thesis
    using foldl_notify_trace
    by (simp add: send_concert_notification_def get_all_subscribers_def)
qed

lemma foldl_send_trace:
  "\<exists>post. trace (foldl send_concert_notification w new) = trace w @ post"
proof (induction new arbitrary: w)
  case Nil
  then show ?case by simp
next
  case (Cons c new)
  obtain p1 where p1: "trace (send_concert_notification w c) = trace w @ p1"
    using send_concert_notification_trace by blast
  obtain p2 where "trace (foldl send_concert_notification (send_concert_notification w c) new) =
      trace (send_concert_notification w c) @ p2"
    using Cons.IH by blast
  then show ?case by (simp add: p1)
qed

lemma notify_new_concerts_trace:
  "\<exists>post. trace (notify_new_concerts new w) = trace w @ post"
proof -
  obtain p where "trace (foldl send_concert_notification
      (emit (Log Info (SendingNotifications (length new) (length (subscribers w)))) w) new) =
      trace (emit (Log Info (SendingNotifications (length new) (length (subscribers w)))) w) @ p"
    using foldl_send_trace by blast
  then show ?thesis
    by (simp add: notify_new_concerts_def get_subscriber_count_def)
qed

lemma load_last_state_trace:
  "\<exists>post. trace (snd (load_last_state w)) = trace w @ post"
  by (simp add: load_last_state_def Let_def split: option.splits)

lemma before_save_trace:
  "\<exists>pre. trace (before_save n w) = trace w @ pre \<and> calls pre = []"
proof -
  let ?w = "emit (Log Info Loading) (emit (Log Info Fetching) (emit (Log Info Connected)
             (emit (Log Info Initializing) w)))"
  obtain p where p: "trace (snd (load_last_state ?w)) = trace ?w @ p"
    using load_last_state_trace by blast
  have tr: "trace (before_save n w) =
      trace w @ ([Log Info Initializing, Log Info Connected, Log Info Fetching, Log Info Loading] @
        p @ [Log Info (NewConcerts n)])"
    by (simp add: before_save_def p)
  have "calls (trace (before_save n w)) = calls (trace w)"
    by simp
  then have "calls ([Log Info Initializing, Log Info Connected, Log Info Fetching,
      Log Info Loading] @ p @ [Log Info (NewConcerts n)]) = []"
    unfolding tr calls_append by simp
  with tr show ?thesis by blast
qed

lemma save_state_trace:
  "trace (save_state t1 t2 concerts w) =
   trace w @ [if raises w KEYS \<or> raises w EXEC then Log Error SaveError
              else Log Info (SavedConcerts (length concerts))]"
  by (simp add: save_state_def Let_def)

lemma save_state_fields [simp]:
  "subscribers (save_state t1 t2 concerts w) = subscribers w"
  "raises (save_state t1 t2 concerts w) = raises w"
  "send (save_state t1 t2 concerts w) = send w"
  by (simp_all add: save_state_def Let_def)

lemma save_state_strings:
  "strings (save_state t1 t2 concerts (emit e w)) = strings (save_state t1 t2 concerts w)"
  "strings (save_state t1 t2 concerts (snd (load_last_state w))) =
     strings (save_state t1 t2 concerts w)"
  by (simp_all add: save_state_def Let_def concert_keys_def)

text \<open>
  C3, amended. In every invocation whose diff result is non-empty, \<open>save_state\<close> has
  returned, with its log line written, before the first call of the bot. When that save
  succeeded, the store can be read and no \<open>show_id\<close> of the fetch contains a colon, then
  from every world whose store is the one this invocation left (as it is at any
  moment of the dispatch, which never writes to it), a run with the unchanged
  fetch finds no new concert: it returns success after logging "No changes detected",
  calls the bot not once and leaves the store as it is.
\<close>

theorem save_returns_before_dispatch:
  assumes "\<not> raises w PING" "token" "detected lib http w \<noteq> []"
  shows
    "(\<exists>pre post.
        trace (snd (lambda_handler lib token http t1 t2 w)) = trace w @ pre @ post \<and>
        calls pre = [] \<and> pre \<noteq> [] \<and>
        last pre =
          (if raises w KEYS \<or> raises w EXEC then Log Error SaveError
           else Log Info (SavedConcerts (length (current_concerts (get_concerts lib http)))))) \<and>
     (\<not> raises w KEYS \<and> \<not> raises w EXEC \<and> \<not> raises w GET \<and>
      (\<forall>c \<in> set (get_concerts lib http). 0x3A \<notin> set (show_id c)) \<longrightarrow>
      (\<forall>w2. strings w2 = strings (snd (lambda_handler lib token http t1 t2 w)) \<and>
            raises w2 = raises w \<longrightarrow>
            detected lib http w2 = [] \<and>
            fst (lambda_handler lib token http t3 t4 w2) =
              Some \<lparr>statusCode = 200, body = success_body\<rparr> \<and>
            calls (trace (snd (lambda_handler lib token http t3 t4 w2))) = calls (trace w2) \<and>
            strings (snd (lambda_handler lib token http t3 t4 w2)) = strings w2 \<and>
            last (trace (snd (lambda_handler lib token http t3 t4 w2))) = Log Info NoChanges))"
proof -
  let ?n = "length (detected lib http w)"
  let ?cur = "current_concerts (get_concerts lib http)"
  let ?b = "before_save ?n w"
  let ?s = "save_state t1 t2 ?cur ?b"
  let ?line = "if raises w KEYS \<or> raises w EXEC then Log Error SaveError
               else Log Info (SavedConcerts (length ?cur))"
  have run: "snd (lambda_handler lib token http t1 t2 w) =
      notify_new_concerts (map as_dict (detected lib http w)) ?s"
    using lambda_handler_persist [OF assms, of t1 t2] by simp
  obtain pb where pb: "trace ?b = trace w @ pb" and quiet: "calls pb = []"
    using before_save_trace by blast
  obtain post where post: "trace (notify_new_concerts (map as_dict (detected lib http w)) ?s) =
      trace ?s @ post"
    using notify_new_concerts_trace by blast
  have saved: "trace ?s = trace w @ (pb @ [?line])"
    by (simp add: save_state_trace pb)
  have order: "\<exists>pre post.
        trace (snd (lambda_handler lib token http t1 t2 w)) = trace w @ pre @ post \<and>
        calls pre = [] \<and> pre \<noteq> [] \<and> last pre = ?line"
  proof (intro exI conjI)
    show "trace (snd (lambda_handler lib token http t1 t2 w)) = trace w @ (pb @ [?line]) @ post"
      by (simp only: run post saved append_assoc)
    show "calls (pb @ [?line]) = []"
      using quiet by simp
    show "pb @ [?line] \<noteq> []"
      by simp
    show "last (pb @ [?line]) = ?line"
      by simp
  qed
  have rerun: "detected lib http w2 = [] \<and>
            fst (lambda_handler lib token http t3 t4 w2) =
              Some \<lparr>statusCode = 200, body = success_body\<rparr> \<and>
            calls (trace (snd (lambda_handler lib token http t3 t4 w2))) = calls (trace w2) \<and>
            strings (snd (lambda_handler lib token http t3 t4 w2)) = strings w2 \<and>
            last (trace (snd (lambda_handler lib token http t3 t4 w2))) = Log Info NoChanges"
    if ok: "\<not> raises w KEYS" "\<not> raises w EXEC" "\<not> raises w GET"
      and ids: "\<forall>c \<in> set (get_concerts lib http). 0x3A \<notin> set (show_id c)"
      and store: "strings w2 = strings (snd (lambda_handler lib token http t1 t2 w))"
      and same: "raises w2 = raises w"
    for w2
  proof -
    have "strings w2 = strings (save_state t1 t2 ?cur w)"
      by (simp add: store run before_save_def save_state_strings)
    then have none: "detected lib http w2 = []"
      unfolding detected_def
      using ok ids same by (intro rerun_detects_nothing [of w _ w2 t1 t2]) simp_all
    have ping: "\<not> raises w2 PING"
      using assms(1) same by simp
    have fetched: "get_concerts lib http \<noteq> []"
      using assms(3) by (rule detected_nonempty_fetch)
    note again = lambda_handler_no_change [OF ping assms(2) fetched none, of t3 t4]
    show ?thesis
      by (simp add: none again)
  qed
  from order rerun show ?thesis by blast
qed

lemma one_show_concerts: "get_concerts sample_lib one_show_http = [parsed_5286]"
  by (simp add: get_concerts_def one_show_http_def map_filter_simps parse_show_def sample_lib_def
      dict_get_def Let_def str_def parsed_5286_def base_url_def)

lemma empty_store_loads_nothing: "strings w = [] \<Longrightarrow> fst (fst (load_last_state w)) = []"
  by (simp add: load_last_state_def concert_keys_def Let_def)

lemma one_show_detected:
  "strings w = [] \<Longrightarrow> detected sample_lib one_show_http w = [parsed_5286]"
  by (simp add: detected_def one_show_concerts empty_store_loads_nothing new_concerts_def
      current_concerts_def)

lemma foldl_notify_all_delivered:
  "\<forall>c. send w c = None \<Longrightarrow> subscribers (foldl (notify_subscriber m img) w subs) = subscribers w"
proof (induction subs arbitrary: w)
  case Nil
  then show ?case by simp
next
  case (Cons s subs)
  have keep: "subscribers (notify_subscriber m img w s) = subscribers w"
    using Cons.prems by (intro notify_subscriber_keeps) (simp add: permanently_failed_def)
  have "\<forall>c. send (notify_subscriber m img w s) c = None"
    using Cons.prems by simp
  from Cons.IH [OF this] show ?case by (simp add: keep)
qed

lemma foldl_send_all_delivered:
  "\<forall>c. send w c = None \<Longrightarrow> subscribers (foldl send_concert_notification w new) = subscribers w"
proof (induction new arbitrary: w)
  case Nil
  then show ?case by simp
next
  case (Cons c new)
  have keep: "subscribers (send_concert_notification w c) = subscribers w"
    using Cons.prems
    by (simp add: send_concert_notification_def get_all_subscribers_def foldl_notify_all_delivered)
  have "\<forall>x. send (send_concert_notification w c) x = None"
    using Cons.prems by simp
  from Cons.IH [OF this] show ?case by (simp add: keep)
qed

lemma notify_all_delivered:
  "\<forall>c. send w c = None \<Longrightarrow> subscribers (notify_new_concerts new w) = subscribers w"
  by (simp add: notify_new_concerts_def get_subscriber_count_def foldl_send_all_delivered)

lemma persist_fields:
  assumes "\<not> raises w PING" "token" "detected lib http w \<noteq> []"
  shows "raises (snd (lambda_handler lib token http t1 t2 w)) = raises w"
    and "send (snd (lambda_handler lib token http t1 t2 w)) = send w"
    and "\<forall>c. send w c = None \<Longrightarrow>
         subscribers (snd (lambda_handler lib token http t1 t2 w)) = subscribers w"
  using lambda_handler_persist [OF assms, of t1 t2] by (simp_all add: notify_all_delivered)

lemma persist_calls:
  assumes "\<not> raises w PING" "token" "detected lib http w \<noteq> []"
    and "\<not> raises w HGETALL" "\<not> raises w HDEL" "\<not> raises w HLEN" "registry_ok (subscribers w)"
  shows "calls (trace (snd (lambda_handler lib token http t1 t2 w))) =
         calls (trace w) @ dispatch_calls (send w) (subscribers w) (map as_dict (detected lib http w))"
proof -
  let ?s = "save_state t1 t2 (current_concerts (get_concerts lib http))
              (before_save (length (detected lib http w)) w)"
  have quiet: "calls (trace ?s) = calls (trace w)"
    by (simp add: save_state_trace)
  have "calls (trace (notify_new_concerts (map as_dict (detected lib http w)) ?s)) =
        calls (trace ?s) @ dispatch_calls (send ?s) (subscribers ?s) (map as_dict (detected lib http w))"
    using assms(4-7) by (intro notify_new_concerts_calls) simp_all
  then show ?thesis
    using lambda_handler_persist [OF assms(1-3), of t1 t2] by (simp add: quiet)
qed

lemma one_parsed_dispatch:
  "dispatch_calls (\<lambda>c. None) [(uid, sub)] [as_dict parsed_5286] =
     [SendMessage uid (format_single_concert_message (as_dict parsed_5286))]"
  by (simp add: delivery_attempts_def first_call_def parsed_parts Let_def)

text \<open>
  C2, as stated, fails: with \<open>pipe.execute()\<close> raising, the invocation reports success,
  has sent the notification to the subscriber, and has stored nothing.
\<close>

theorem unsaved_snapshot_is_dispatched:
  "fst (lambda_handler sample_lib True one_show_http [] []
          (sample_world [7] (\<lambda>c. c = EXEC) (\<lambda>c. None))) =
     Some \<lparr>statusCode = 200, body = success_body\<rparr> \<and>
   calls (trace (snd (lambda_handler sample_lib True one_show_http [] []
                        (sample_world [7] (\<lambda>c. c = EXEC) (\<lambda>c. None))))) =
     [SendMessage 7 (format_single_concert_message (as_dict parsed_5286))] \<and>
   strings (snd (lambda_handler sample_lib True one_show_http [] []
                   (sample_world [7] (\<lambda>c. c = EXEC) (\<lambda>c. None)))) = []"
proof -
  let ?w = "sample_world [7] (\<lambda>c. c = EXEC) (\<lambda>c. None)"
  have ping: "\<not> raises ?w PING"
    by (simp add: sample_world_def)
  have up: "\<not> raises ?w HGETALL" "\<not> raises ?w HDEL" "\<not> raises ?w HLEN"
    by (simp_all add: sample_world_def)
  have found: "detected sample_lib one_show_http ?w = [parsed_5286]"
    by (rule one_show_detected) (simp add: sample_world_def)
  then have new: "detected sample_lib one_show_http ?w \<noteq> []"
    by simp
  have ok: "registry_ok (subscribers ?w)"
    by (simp add: sample_world_def registry_ok_def sample_subscriber_def)
  have run: "lambda_handler sample_lib True one_show_http [] [] ?w =
      (Some \<lparr>statusCode = 200, body = success_body\<rparr>,
       notify_new_concerts (map as_dict (detected sample_lib one_show_http ?w))
         (save_state [] [] (current_concerts (get_concerts sample_lib one_show_http))
            (before_save (length (detected sample_lib one_show_http ?w)) ?w)))"
    using ping new by (intro lambda_handler_persist) simp_all
  have sent: "calls (trace (snd (lambda_handler sample_lib True one_show_http [] [] ?w))) =
      [SendMessage 7 (format_single_concert_message (as_dict parsed_5286))]"
  proof -
    have "calls (trace (snd (lambda_handler sample_lib True one_show_http [] [] ?w))) =
        calls (trace ?w) @ dispatch_calls (send ?w) (subscribers ?w) [as_dict parsed_5286]"
      using persist_calls [OF ping TrueI new up ok, of "[]" "[]"]
      by (simp only: found list.map)
    then show ?thesis
      by (simp add: sample_world_def delivery_attempts_def first_call_def parsed_parts)
  qed
  have store: "strings (snd (lambda_handler sample_lib True one_show_http [] [] ?w)) = []"
    by (simp add: run save_state_def) (simp add: sample_world_def)
  from run sent store show ?thesis by simp
qed

text \<open>
  An instance of the amended C2, with \<open>keys\<close> raising and two subscribers.
\<close>

theorem save_failure_is_swallowed_witness:
  "\<not> raises (sample_world [1, 2] (\<lambda>c. c = KEYS) (\<lambda>c. None)) PING \<and>
   raises (sample_world [1, 2] (\<lambda>c. c = KEYS) (\<lambda>c. None)) KEYS \<and>
   detected sample_lib one_show_http (sample_world [1, 2] (\<lambda>c. c = KEYS) (\<lambda>c. None)) =
     [parsed_5286] \<and>
   lambda_handler sample_lib True one_show_http [] []
       (sample_world [1, 2] (\<lambda>c. c = KEYS) (\<lambda>c. None)) =
     (Some \<lparr>statusCode = 200, body = success_body\<rparr>,
      notify_new_concerts [as_dict parsed_5286]
        (emit (Log Error SaveError)
           (before_save 1 (sample_world [1, 2] (\<lambda>c. c = KEYS) (\<lambda>c. None))))) \<and>
   strings (snd (lambda_handler sample_lib True one_show_http [] []
                   (sample_world [1, 2] (\<lambda>c. c = KEYS) (\<lambda>c. None)))) = []"
proof -
  let ?w = "sample_world [1, 2] (\<lambda>c. c = KEYS) (\<lambda>c. None)"
  have ping: "\<not> raises ?w PING" and keys: "raises ?w KEYS"
    by (simp_all add: sample_world_def)
  have found: "detected sample_lib one_show_http ?w = [parsed_5286]"
    by (rule one_show_detected) (simp add: sample_world_def)
  then have new: "detected sample_lib one_show_http ?w \<noteq> []"
    by simp
  have fail: "raises ?w KEYS \<or> raises ?w EXEC"
    using keys by simp
  have empty: "strings ?w = []"
    by (simp add: sample_world_def)
  note inst = save_failure_is_swallowed [OF ping TrueI new fail, of "[]" "[]"]
  have run: "lambda_handler sample_lib True one_show_http [] [] ?w =
      (Some \<lparr>statusCode = 200, body = success_body\<rparr>,
       notify_new_concerts [as_dict parsed_5286]
         (emit (Log Error SaveError) (before_save 1 ?w)))"
    using inst [THEN conjunct2, THEN conjunct1] unfolding found by simp
  have store: "strings (snd (lambda_handler sample_lib True one_show_http [] [] ?w)) = []"
    using inst [THEN conjunct2, THEN conjunct2] unfolding empty .
  from ping keys found run store show ?thesis
    by (simp only: simp_thms)
qed

text \<open>
  C3, as stated, fails: with \<open>pipe.execute()\<close> raising, the notification is sent
  although no save completed, and the next invocation with the unchanged fetch detects
  the same concert and sends the notification again.
\<close>

theorem failed_save_renotifies:
  "calls (trace (snd (lambda_handler sample_lib True one_show_http [] []
                        (sample_world [3] (\<lambda>c. c = EXEC) (\<lambda>c. None))))) =
     [SendMessage 3 (format_single_concert_message (as_dict parsed_5286))] \<and>
   strings (snd (lambda_handler sample_lib True one_show_http [] []
                   (sample_world [3] (\<lambda>c. c = EXEC) (\<lambda>c. None)))) = [] \<and>
   detected sample_lib one_show_http
     (snd (lambda_handler sample_lib True one_show_http [] []
             (sample_world [3] (\<lambda>c. c = EXEC) (\<lambda>c. None)))) = [parsed_5286] \<and>
   calls (trace (snd (lambda_handler sample_lib True one_show_http [] []
     (snd (lambda_handler sample_lib True one_show_http [] []
             (sample_world [3] (\<lambda>c. c = EXEC) (\<lambda>c. None))))))) =
     [SendMessage 3 (format_single_concert_message (as_dict parsed_5286)),
      SendMessage 3 (format_single_concert_message (as_dict parsed_5286))]"
proof -
  let ?w = "sample_world [3] (\<lambda>c. c = EXEC) (\<lambda>c. None)"
  let ?w1 = "snd (lambda_handler sample_lib True one_show_http [] [] ?w)"
  let ?m = "format_single_concert_message (as_dict parsed_5286)"
  have ping: "\<not> raises ?w PING"
    by (simp add: sample_world_def)
  have up: "\<not> raises ?w HGETALL" "\<not> raises ?w HDEL" "\<not> raises ?w HLEN"
    by (simp_all add: sample_world_def)
  have fail: "raises ?w KEYS \<or> raises ?w EXEC"
    by (simp add: sample_world_def)
  have delivered: "\<forall>c. send ?w c = None"
    by (simp add: sample_world_def)
  have subs: "subscribers ?w = [(3, sample_subscriber 3)]" and sends: "send ?w = (\<lambda>c. None)"
    and quiet: "calls (trace ?w) = []" and empty: "strings ?w = []"
    by (simp_all add: sample_world_def)
  have ok: "registry_ok (subscribers ?w)"
    by (simp add: subs registry_ok_def sample_subscriber_def)
  have found: "detected sample_lib one_show_http ?w = [parsed_5286]"
    using empty by (rule one_show_detected)
  then have new: "detected sample_lib one_show_http ?w \<noteq> []"
    by simp
  have first: "calls (trace ?w1) = [SendMessage 3 ?m]"
    using persist_calls [OF ping TrueI new up ok, of "[]" "[]"]
    by (simp only: found list.map subs sends quiet one_parsed_dispatch append_Nil)
  have store: "strings ?w1 = []"
    using save_failure_run [OF ping TrueI new fail, of "[]" "[]", THEN conjunct2, THEN conjunct2]
    unfolding empty .
  have same: "raises ?w1 = raises ?w" "send ?w1 = send ?w" "subscribers ?w1 = subscribers ?w"
    using persist_fields [OF ping TrueI new, of "[]" "[]"] delivered by simp_all
  have again: "detected sample_lib one_show_http ?w1 = [parsed_5286]"
    using store by (rule one_show_detected)
  then have new1: "detected sample_lib one_show_http ?w1 \<noteq> []"
    by simp
  have ping1: "\<not> raises ?w1 PING"
    unfolding same by (rule ping)
  have up1: "\<not> raises ?w1 HGETALL" "\<not> raises ?w1 HDEL" "\<not> raises ?w1 HLEN"
    unfolding same by (rule up)+
  have ok1: "registry_ok (subscribers ?w1)"
    unfolding same by (rule ok)
  have second: "calls (trace (snd (lambda_handler sample_lib True one_show_http [] [] ?w1))) =
      [SendMessage 3 ?m, SendMessage 3 ?m]"
    using persist_calls [OF ping1 TrueI new1 up1 ok1, of "[]" "[]"]
    by (simp only: again list.map same subs sends first one_parsed_dispatch append.simps)
  from first store again second show ?thesis
    by (simp only: simp_thms)
qed

text \<open>
  An instance of the amended C3: a healthy store, the show \<open>5286\<close>, one subscriber.
\<close>

theorem save_returns_before_dispatch_witness:
  "\<not> raises (sample_world [7] (\<lambda>c. False) (\<lambda>c. None)) PING \<and>
   detected sample_lib one_show_http (sample_world [7] (\<lambda>c. False) (\<lambda>c. None)) = [parsed_5286] \<and>
   get_concerts sample_lib one_show_http = [parsed_5286] \<and>
   0x3A \<notin> set (show_id parsed_5286) \<and>
   (\<exists>pre post.
      trace (snd (lambda_handler sample_lib True one_show_http [] []
                    (sample_world [7] (\<lambda>c. False) (\<lambda>c. None)))) = pre @ post \<and>
      calls pre = [] \<and> last pre = Log Info (SavedConcerts 1)) \<and>
   detected sample_lib one_show_http
     (snd (lambda_handler sample_lib True one_show_http [] []
             (sample_world [7] (\<lambda>c. False) (\<lambda>c. None)))) = [] \<and>
   fst (lambda_handler sample_lib True one_show_http [] []
     (snd (lambda_handler sample_lib True one_show_http [] []
             (sample_world [7] (\<lambda>c. False) (\<lambda>c. None))))) =
     Some \<lparr>statusCode = 200, body = success_body\<rparr> \<and>
   calls (trace (snd (lambda_handler sample_lib True one_show_http [] []
     (snd (lambda_handler sample_lib True one_show_http [] []
             (sample_world [7] (\<lambda>c. False) (\<lambda>c. None))))))) =
     calls (trace (snd (lambda_handler sample_lib True one_show_http [] []
             (sample_world [7] (\<lambda>c. False) (\<lambda>c. None)))))"
proof -
  let ?w = "sample_world [7] (\<lambda>c. False) (\<lambda>c. None)"
  let ?w1 = "snd (lambda_handler sample_lib True one_show_http [] [] ?w)"
  have ping: "\<not> raises ?w PING"
    by (simp add: sample_world_def)
  have healthy: "\<not> raises ?w KEYS" "\<not> raises ?w EXEC" "\<not> raises ?w GET"
    by (simp_all add: sample_world_def)
  have empty: "strings ?w = []" and start: "trace ?w = []"
    by (simp_all add: sample_world_def)
  have found: "detected sample_lib one_show_http ?w = [parsed_5286]"
    using empty by (rule one_show_detected)
  then have new: "detected sample_lib one_show_http ?w \<noteq> []"
    by simp
  have ids: "0x3A \<notin> set (show_id parsed_5286)"
    by (simp add: parsed_5286_def str_def)
  then have all_ids: "\<forall>c \<in> set (get_concerts sample_lib one_show_http). 0x3A \<notin> set (show_id c)"
    by (simp add: one_show_concerts)
  have same: "raises ?w1 = raises ?w"
    using ping new by (intro persist_fields) simp_all
  note inst = save_returns_before_dispatch [OF ping TrueI new, of "[]" "[]" "[]" "[]"]
  have order: "\<exists>pre post. trace ?w1 = pre @ post \<and> calls pre = [] \<and>
      last pre = Log Info (SavedConcerts 1)"
    using inst [THEN conjunct1] healthy
    by (simp add: start one_show_concerts current_concerts_def) blast
  have rerun: "detected sample_lib one_show_http ?w1 = [] \<and>
      fst (lambda_handler sample_lib True one_show_http [] [] ?w1) =
        Some \<lparr>statusCode = 200, body = success_body\<rparr> \<and>
      calls (trace (snd (lambda_handler sample_lib True one_show_http [] [] ?w1))) =
        calls (trace ?w1)"
    using inst [THEN conjunct2] healthy all_ids same by blast
  from ping found one_show_concerts ids order rerun show ?thesis
    by blast
qed


section \<open>The message that an invocation sends\<close>

lemma sold_out_fields:
  "dict_get sold_out_priced_show ''showId'' d = str ''5286''"
  "dict_get sold_out_priced_show ''showName'' d = str ''X''"
  "dict_get sold_out_priced_show ''showTitle'' d = d"
  "dict_get sold_out_priced_show ''showShortTitle'' d = d"
  "dict_get sold_out_priced_show ''showDate'' d = str ''20/08/2025''"
  "dict_get sold_out_priced_show ''showTime'' d = str ''20:30''"
  "dict_get sold_out_priced_show ''showPrice'' d = str ''185''"
  "dict_get sold_out_priced_show ''showSoldMaxBuy'' d = d"
  "dict_get sold_out_priced_show ''showSeatType'' d = d"
  "dict_get sold_out_priced_show ''notbybarbtsellsoldout'' d = str ''1''"
  "dict_get sold_out_priced_show ''showImage'' d = d"
  "sold_out_priced_show ''showSold'' = None"
  by (simp_all add: dict_get_def sold_out_priced_show_def)

lemma str_nonempty [simp]: "str (c # cs) \<noteq> []"
  by (simp add: str_def)

lemma str_append: "str a @ str b = str (a @ b)"
  by (simp add: str_def)

lemma str_append_more: "str a @ str b @ r = str (a @ b) @ r"
  by (simp add: str_def)

lemma sold_out_parsed: "parse_show sample_lib sold_out_priced_show = Some parsed_sold_out"
  by (simp add: parse_show_def sold_out_fields sample_lib_def parsed_sold_out_def base_url_def
      str_append str_append_more Let_def)

lemma sold_out_concerts: "get_concerts sample_lib sold_out_http = [parsed_sold_out]"
  by (simp add: get_concerts_def sold_out_http_def map_filter_simps sold_out_parsed)

lemma sold_out_detected:
  "strings w = [] \<Longrightarrow> detected sample_lib sold_out_http w = [parsed_sold_out]"
  by (simp add: detected_def sold_out_concerts empty_store_loads_nothing new_concerts_def
      current_concerts_def)

lemma py_strip_word:
  "py_strip (str ''X'') = str ''X''"
  by (simp add: py_strip_def isspace_def str_def)

lemma raw_sold_out_message:
  "format_single_concert_message sold_out_priced_show =
     header_line @ [0x1F3B5] @ str '' <b>'' @ str ''X'' @ str ''</b>'' @ [0x0A] @
     [0x1F4C5, 0x20] @ str ''20/08/2025'' @ str '' '' @ str ''20:30'' @ [0x0A] @
     [0x1F4B0, 0x20, 0x20AA] @ str ''185'' @ sold_out_status @ [0x0A] @
     [0x1F3AB] @ str '' <a href='' @ [0x22] @ str ''https://barby.co.il/show/'' @ str ''5286'' @
     [0x22] @ str ''>'' @
     [0x5E7, 0x5E0, 0x5D9, 0x5D9, 0x5EA, 0x20, 0x5DB, 0x5E8, 0x5D8, 0x5D9, 0x5E1, 0x5D9, 0x5DD] @
     str ''</a>'' @ [0x0A, 0x0A] @ footer_line"
  by (simp add: format_single_concert_message_def artist_line_def title_line_def date_line_def
      price_line_def ticket_line_def msg_artist_def display_title_def datetime_str_def
      price_text_def seat_text_def msg_status_def msg_url_def sold_out_fields py_strip_word
      Let_def)

lemma default_message_has_no_status:
  "\<not> py_in sold_out_status (format_single_concert_message (as_dict c))"
  by (simp add: parsed_concert_message header_line_def footer_line_def sold_out_status_def str_def)

text \<open>Every parsed show is rendered as the empty dict is.\<close>

lemma empty_dict_message:
  "format_single_concert_message (as_dict c) = format_single_concert_message Map.empty"
  by (simp add: format_single_concert_message_def artist_line_def title_line_def date_line_def
      price_line_def ticket_line_def msg_artist_def display_title_def clean_title_def
      datetime_str_def price_text_def seat_text_def msg_status_def msg_url_def dict_get_def
      as_dict_has_no_api_key)

text \<open>
  C8 fails on the records of the pipeline. \<open>lambda_handler\<close> hands the renderer the
  dicts of \<open>parse_show\<close>, and the renderer reads the upstream field names only. For a
  fetched show that is sold out and has a price, a date and a time, the message that the
  invocation sends names an unknown artist, renders \<open>TBA\<close> for the date and for the
  price, and carries no sold-out status. Given the upstream dict itself, the renderer
  shows the artist, the date and time, the price and the marked status.
\<close>

theorem sold_out_record_renders_as_unknown:
  "get_concerts sample_lib sold_out_http = [parsed_sold_out] \<and>
   is_sold_out parsed_sold_out \<and> price parsed_sold_out = str ''185'' \<and>
   date parsed_sold_out = str ''20/08/2025'' \<and>
   calls (trace (snd (lambda_handler sample_lib True sold_out_http [] []
                        (sample_world [7] (\<lambda>c. False) (\<lambda>c. None))))) =
     [SendMessage 7 (format_single_concert_message (as_dict parsed_sold_out))] \<and>
   format_single_concert_message (as_dict parsed_sold_out) =
     header_line @ [0x1F3B5] @ str '' <b>'' @ str ''Unknown Artist'' @ str ''</b>'' @ [0x0A] @
     [0x1F4C5, 0x20] @ str ''TBA'' @ [0x0A] @ [0x1F4B0, 0x20] @ str ''TBA'' @ [0x0A] @
     [0x1F3AB] @ str '' <a href='' @ [0x22] @ str ''https://barby.co.il'' @ [0x22] @ str ''>'' @
     [0x5E7, 0x5E0, 0x5D9, 0x5D9, 0x5EA, 0x20, 0x5DB, 0x5E8, 0x5D8, 0x5D9, 0x5E1, 0x5D9, 0x5DD] @
     str ''</a>'' @ [0x0A, 0x0A] @ footer_line \<and>
   \<not> py_in sold_out_status (format_single_concert_message (as_dict parsed_sold_out)) \<and>
   format_single_concert_message sold_out_priced_show =
     header_line @ [0x1F3B5] @ str '' <b>'' @ str ''X'' @ str ''</b>'' @ [0x0A] @
     [0x1F4C5, 0x20] @ str ''20/08/2025'' @ str '' '' @ str ''20:30'' @ [0x0A] @
     [0x1F4B0, 0x20, 0x20AA] @ str ''185'' @ sold_out_status @ [0x0A] @
     [0x1F3AB] @ str '' <a href='' @ [0x22] @ str ''https://barby.co.il/show/'' @ str ''5286'' @
     [0x22] @ str ''>'' @
     [0x5E7, 0x5E0, 0x5D9, 0x5D9, 0x5EA, 0x20, 0x5DB, 0x5E8, 0x5D8, 0x5D9, 0x5E1, 0x5D9, 0x5DD] @
     str ''</a>'' @ [0x0A, 0x0A] @ footer_line"
proof -
  let ?w = "sample_world [7] (\<lambda>c. False) (\<lambda>c. None)"
  have fields: "is_sold_out parsed_sold_out" "price parsed_sold_out = str ''185''"
    "date parsed_sold_out = str ''20/08/2025''"
    by (simp_all add: parsed_sold_out_def)
  have ping: "\<not> raises ?w PING"
    by (simp add: sample_world_def)
  have up: "\<not> raises ?w HGETALL" "\<not> raises ?w HDEL" "\<not> raises ?w HLEN"
    by (simp_all add: sample_world_def)
  have ok: "registry_ok (subscribers ?w)"
    by (simp add: sample_world_def registry_ok_def sample_subscriber_def)
  have found: "detected sample_lib sold_out_http ?w = [parsed_sold_out]"
    by (rule sold_out_detected) (simp add: sample_world_def)
  then have new: "detected sample_lib sold_out_http ?w \<noteq> []"
    by simp
  have "calls (trace (snd (lambda_handler sample_lib True sold_out_http [] [] ?w))) =
      calls (trace ?w) @ dispatch_calls (send ?w) (subscribers ?w) [as_dict parsed_sold_out]"
    using persist_calls [OF ping TrueI new up ok, of "[]" "[]"]
    by (simp only: found list.map)
  then have sent: "calls (trace (snd (lambda_handler sample_lib True sold_out_http [] [] ?w))) =
      [SendMessage 7 (format_single_concert_message (as_dict parsed_sold_out))]"
    by (simp add: sample_world_def delivery_attempts_def first_call_def parsed_parts)
  from sold_out_concerts fields sent parsed_concert_message [of parsed_sold_out]
    default_message_has_no_status [of parsed_sold_out] raw_sold_out_message
  show ?thesis by (simp only: simp_thms)
qed

end
